theory Spec2Isabelle
  imports Main "HOL-Library.AList"
begin

section \<open>Data model (types.ts)\<close>

text \<open>
  Optional fields of the TypeScript interfaces are \<open>option\<close> values, numbers are
  integers (priorities, exit codes, millisecond time stamps), and a thrown value is
  represented by the message the code reads from it
  (\<^verbatim>\<open>error instanceof Error ? error.message : String(error)\<close>).
  Field names carry a prefix for the record they belong to, since several interfaces share
  \<^verbatim>\<open>id\<close>, \<^verbatim>\<open>name\<close>, \<^verbatim>\<open>status\<close>, \<^verbatim>\<open>steps\<close>.
\<close>

type_synonym exn = string

record JobStep =
  step_name :: string
  step_run :: string
  step_workingDir :: "string option"
  step_env :: "(string \<times> string) list option"
  step_continueOnError :: "bool option"
  step_timeout :: "int option"

record JobConfig =
  job_id :: string
  job_repo :: string
  job_commit :: string
  job_branch :: string
  job_steps :: "JobStep list"
  job_env :: "(string \<times> string) list option"
  job_cacheKeys :: "string list option"
  job_timeout :: "int option"
  job_priority :: "int option"

datatype job_state = Queued | Running | Success | Failure | Timeout | Cancelled

datatype step_state = Pending | StepRunning | StepSuccess | StepFailure | Skipped

record StepResult =
  res_name :: string
  res_status :: step_state
  res_output :: "string option"
  res_exitCode :: "int option"
  res_duration :: "int option"
  res_startedAt :: "int option"
  res_finishedAt :: "int option"

record JobStatus =
  st_id :: string
  st_status :: job_state
  st_currentStep :: "nat option"
  st_startedAt :: "int option"
  st_finishedAt :: "int option"
  st_duration :: "int option"
  st_steps :: "StepResult list"
  st_sandboxId :: "string option"
  st_error :: "string option"

record CacheKey =
  ck_key :: string
  ck_paths :: "string list"
  ck_lastUsed :: int
  ck_size :: "int option"

record WorkspaceSnapshot =
  snap_jobId :: string
  snap_sandboxId :: string
  snap_commit :: string
  snap_timestamp :: int
  snap_archivePath :: string
  snap_size :: int

text \<open>The terminal values of \<^verbatim>\<open>JobStatus.status\<close> (the list \<^verbatim>\<open>streamJobLogs\<close> closes on).\<close>

definition terminal :: "job_state \<Rightarrow> bool" where
  "terminal s = (s = Success \<or> s = Failure \<or> s = Timeout \<or> s = Cancelled)"

text \<open>JavaScript truthiness of an optional number: set, and not \<open>0\<close>.\<close>

definition truthy :: "int option \<Rightarrow> bool" where
  "truthy v = (case v of None \<Rightarrow> False | Some n \<Rightarrow> n \<noteq> 0)"

section \<open>Strings\<close>

text \<open>
  The string functions of JavaScript that the code uses, on ASCII: \<^verbatim>\<open>join\<close>, \<^verbatim>\<open>trim\<close>,
  \<^verbatim>\<open>endsWith\<close>, \<^verbatim>\<open>split\<close> at a one-character separator, the decimal rendering of an integer
  in a template literal, and \<^verbatim>\<open>parseInt\<close> without a radix: leading white space and a sign
  are skipped, a prefix \<^verbatim>\<open>0x\<close> selects radix 16, the longest run of digits is read, and
  the result is \<^verbatim>\<open>NaN\<close> (here \<open>None\<close>) when there is no digit.
\<close>

fun join :: "string \<Rightarrow> string list \<Rightarrow> string" where
  "join sep [] = []"
| "join sep [x] = x"
| "join sep (x # y # ys) = x @ sep @ join sep (y # ys)"

definition is_space :: "char \<Rightarrow> bool" where
  "is_space c = (c \<in> set [CHR 0x09, CHR 0x0A, CHR 0x0B, CHR 0x0C, CHR 0x0D, CHR 0x20])"

definition trim :: "string \<Rightarrow> string" where
  "trim s = rev (dropWhile is_space (rev (dropWhile is_space s)))"

definition endsWith :: "string \<Rightarrow> string \<Rightarrow> bool" where
  "endsWith s suf = (length suf \<le> length s \<and> drop (length s - length suf) s = suf)"

fun split_at :: "char \<Rightarrow> string \<Rightarrow> string list" where
  "split_at sep [] = [[]]"
| "split_at sep (c # cs) =
     (if c = sep then [] # split_at sep cs
      else (case split_at sep cs of
              [] \<Rightarrow> [[c]]
            | part # parts \<Rightarrow> (c # part) # parts))"

definition nth_opt :: "'a list \<Rightarrow> nat \<Rightarrow> 'a option" where
  "nth_opt xs i = (if i < length xs then Some (xs ! i) else None)"

definition digit :: "nat \<Rightarrow> char" where
  "digit d = char_of (48 + d)"

function show_nat :: "nat \<Rightarrow> string" where
  "show_nat n = (if n < 10 then [digit n] else show_nat (n div 10) @ [digit (n mod 10)])"
  by pat_completeness auto
termination
  by (relation "measure (\<lambda>n. n)") auto

declare show_nat.simps [simp del]

definition show_int :: "int \<Rightarrow> string" where
  "show_int i = (if i < 0 then CHR ''-'' # show_nat (nat (- i)) else show_nat (nat i))"

definition digit_value :: "char \<Rightarrow> nat" where
  "digit_value c =
     (let n = of_char c :: nat
      in if 48 \<le> n \<and> n \<le> 57 then n - 48
         else if 97 \<le> n \<and> n \<le> 122 then n - 87
         else if 65 \<le> n \<and> n \<le> 90 then n - 55
         else 36)"

definition parseInt :: "string \<Rightarrow> int option" where
  "parseInt s =
     (let s1 = dropWhile is_space s;
          negative = (take 1 s1 = ''-'');
          s2 = (if take 1 s1 = ''-'' \<or> take 1 s1 = ''+'' then drop 1 s1 else s1);
          hex = (take 2 s2 = ''0x'' \<or> take 2 s2 = ''0X'');
          radix = (if hex then 16 else 10);
          s3 = (if hex then drop 2 s2 else s2);
          z = takeWhile (\<lambda>c. digit_value c < radix) s3;
          mathInt = foldl (\<lambda>acc c. acc * radix + digit_value c) 0 z
      in if z = [] then None
         else Some (if negative then - int mathInt else int mathInt))"

section \<open>The key-value store (KVNamespace)\<close>

text \<open>
  The queue's KV namespace holds three families of keys, told apart by their prefixes:
  \<^verbatim>\<open>queue:{priority}:{timestamp}:{jobId}\<close> (a JobConfig), \<^verbatim>\<open>status:{jobId}\<close> (a JobStatus)
  and \<^verbatim>\<open>job:{jobId}\<close> (a JobConfig). No key of one family starts with the prefix of
  another, so \<^verbatim>\<open>list({prefix})\<close> of one family never sees the others, and the store is the
  product of three families. A status or job key is represented by its job id; a queue key
  by the three fields its name is built from.

  A family is an association list in the order \<^verbatim>\<open>list\<close> returns its keys. The code
  relies on no particular order; here a new key goes to the end, and the properties below
  hold for every order (the order only decides between keys the comparator of \<^verbatim>\<open>dequeue\<close>
  ranks equal, and which of several matching keys \<^verbatim>\<open>cancelJob\<close> deletes). An entry
  \<open>(k, None)\<close> is a key that \<^verbatim>\<open>list\<close> still returns while \<^verbatim>\<open>get\<close> answers \<^verbatim>\<open>null\<close>
  (its value expired under its TTL, or is not visible yet: listing and reading are separate
  calls on an eventually consistent store). \<^verbatim>\<open>list\<close> is taken to return every key (no
  pagination), as the code assumes, and the calls the queue makes in its own operations are
  taken to complete; the orchestrator's calls into the queue may be rejected (see there).
\<close>

type_synonym ('k, 'v) family = "('k \<times> 'v option) list"

definition kv_list :: "('k, 'v) family \<Rightarrow> 'k list" where
  "kv_list fam = map fst fam"

definition kv_get :: "('k, 'v) family \<Rightarrow> 'k \<Rightarrow> 'v option" where
  "kv_get fam k = (case map_of fam k of Some (Some v) \<Rightarrow> Some v | _ \<Rightarrow> None)"

definition kv_put :: "('k, 'v) family \<Rightarrow> 'k \<Rightarrow> 'v \<Rightarrow> ('k, 'v) family" where
  "kv_put fam k v = AList.update k (Some v) fam"

definition kv_delete :: "('k, 'v) family \<Rightarrow> 'k \<Rightarrow> ('k, 'v) family" where
  "kv_delete fam k = AList.delete k fam"

datatype queue_key = QueueKey (qk_priority: int) (qk_timestamp: int) (qk_jobId: string)

record kv_store =
  queue_fam :: "(queue_key, JobConfig) family"
  status_fam :: "(string, JobStatus) family"
  job_fam :: "(string, JobConfig) family"

text \<open>
  The name of a queue key, as the template literal of \<^verbatim>\<open>enqueue\<close> writes it. Different
  keys have different names (\<open>key_name_inject\<close> below), so reading and deleting by key is
  reading and deleting by name.
\<close>

definition key_name :: "queue_key \<Rightarrow> string" where
  "key_name k =
     ''queue:'' @ show_int (qk_priority k) @ '':'' @ show_int (qk_timestamp k) @ '':'' @ qk_jobId k"

section \<open>JobQueue\<close>

record QueueConfig =
  maxConcurrent :: int
  defaultPriority :: int
  maxRetries :: int

definition default_config :: QueueConfig where
  "default_config = \<lparr>maxConcurrent = 10, defaultPriority = 5, maxRetries = 3\<rparr>"

definition getJobStatus :: "string \<Rightarrow> kv_store \<Rightarrow> JobStatus option" where
  "getJobStatus jobId kv = kv_get (status_fam kv) jobId"

definition updateJobStatus :: "string \<Rightarrow> JobStatus \<Rightarrow> kv_store \<Rightarrow> kv_store" where
  "updateJobStatus jobId status kv = kv\<lparr>status_fam := kv_put (status_fam kv) jobId status\<rparr>"

definition pending_result :: "JobStep \<Rightarrow> StepResult" where
  "pending_result step =
     \<lparr>res_name = step_name step, res_status = Pending, res_output = None, res_exitCode = None,
      res_duration = None, res_startedAt = None, res_finishedAt = None\<rparr>"

text \<open>\<^verbatim>\<open>enqueue\<close>; \<open>now\<close> is the reading of \<^verbatim>\<open>Date.now()\<close>.\<close>

definition enqueue :: "QueueConfig \<Rightarrow> int \<Rightarrow> JobConfig \<Rightarrow> kv_store \<Rightarrow> kv_store" where
  "enqueue config now job kv =
     (let priority = (case job_priority job of Some p \<Rightarrow> p | None \<Rightarrow> defaultPriority config);
          queueKey = QueueKey priority now (job_id job);
          kv1 = kv\<lparr>queue_fam := kv_put (queue_fam kv) queueKey job\<rparr>;
          status = \<lparr>st_id = job_id job, st_status = Queued, st_currentStep = None,
                    st_startedAt = None, st_finishedAt = None, st_duration = None,
                    st_steps = map pending_result (job_steps job),
                    st_sandboxId = None, st_error = None\<rparr>
      in updateJobStatus (job_id job) status kv1)"

text \<open>\<^verbatim>\<open>getRunningJobCount\<close>: the loop over the listed status keys, with its counter.\<close>

fun count_running :: "(string, JobStatus) family \<Rightarrow> string list \<Rightarrow> int \<Rightarrow> int" where
  "count_running fam [] count = count"
| "count_running fam (key # keys) count =
     count_running fam keys
       (case kv_get fam key of
          Some status \<Rightarrow> if st_status status = Running then count + 1 else count
        | None \<Rightarrow> count)"

definition getRunningJobCount :: "kv_store \<Rightarrow> int" where
  "getRunningJobCount kv = count_running (status_fam kv) (kv_list (status_fam kv)) 0"

text \<open>
  The comparator of \<^verbatim>\<open>dequeue\<close>, as the source has it, on names: the names are split at
  the colons and fields 1 and 2 are read with \<^verbatim>\<open>parseInt\<close> (a missing field reads as
  \<^verbatim>\<open>NaN\<close>, and so does a difference with \<^verbatim>\<open>NaN\<close>).
\<close>

definition compareNames :: "string \<Rightarrow> string \<Rightarrow> int option" where
  "compareNames a b =
     (let partsA = split_at CHR '':'' a;
          partsB = split_at CHR '':'' b;
          priorityA = Option.bind (nth_opt partsA 1) parseInt;
          timestampA = Option.bind (nth_opt partsA 2) parseInt;
          priorityB = Option.bind (nth_opt partsB 1) parseInt;
          timestampB = Option.bind (nth_opt partsB 2) parseInt
      in case (priorityB, priorityA) of
           (Some pb, Some pa) \<Rightarrow>
             if pb - pa \<noteq> 0 then Some (pb - pa)
             else (case (timestampA, timestampB) of
                     (Some ta, Some tb) \<Rightarrow> Some (ta - tb)
                   | _ \<Rightarrow> None)
         | _ \<Rightarrow> None)"

text \<open>
  On the names of queue keys the fields read back are the priority and the time stamp the
  name was built from, and the comparator is the following one
  (\<open>compareNames_key_name\<close> below); \<open>dequeue\<close> sorts the keys with it.
\<close>

definition compareKeys :: "queue_key \<Rightarrow> queue_key \<Rightarrow> int" where
  "compareKeys a b =
     (let priDiff = qk_priority b - qk_priority a
      in if priDiff \<noteq> 0 then priDiff else qk_timestamp a - qk_timestamp b)"

text \<open>
  \<^verbatim>\<open>Array.prototype.sort\<close> with a comparator is a stable sort: \<open>a\<close> stays before \<open>b\<close>
  unless the comparator puts \<open>b\<close> first. Insertion from the right is that sort.
\<close>

fun insert_by :: "('a \<Rightarrow> 'a \<Rightarrow> int) \<Rightarrow> 'a \<Rightarrow> 'a list \<Rightarrow> 'a list" where
  "insert_by cmp x [] = [x]"
| "insert_by cmp x (y # ys) = (if cmp x y \<le> 0 then x # y # ys else y # insert_by cmp x ys)"

definition sort_by :: "('a \<Rightarrow> 'a \<Rightarrow> int) \<Rightarrow> 'a list \<Rightarrow> 'a list" where
  "sort_by cmp xs = foldr (insert_by cmp) xs []"

text \<open>\<^verbatim>\<open>dequeue\<close>: the job returned (\<open>None\<close> for \<^verbatim>\<open>null\<close>) and the store afterwards.\<close>

definition dequeue :: "QueueConfig \<Rightarrow> int \<Rightarrow> kv_store \<Rightarrow> JobConfig option \<times> kv_store" where
  "dequeue config now kv =
     (let running = getRunningJobCount kv
      in if running \<ge> maxConcurrent config then (None, kv)
         else
           (case sort_by compareKeys (kv_list (queue_fam kv)) of
              [] \<Rightarrow> (None, kv)
            | firstKey # _ \<Rightarrow>
                (case kv_get (queue_fam kv) firstKey of
                   None \<Rightarrow> (None, kv)
                 | Some jobData \<Rightarrow>
                     (let kv1 = kv\<lparr>queue_fam := kv_delete (queue_fam kv) firstKey\<rparr>;
                          kv2 = (case getJobStatus (job_id jobData) kv1 of
                                   Some status \<Rightarrow>
                                     updateJobStatus (job_id jobData)
                                       (status\<lparr>st_status := Running, st_startedAt := Some now\<rparr>) kv1
                                 | None \<Rightarrow> kv1)
                      in (Some jobData, kv2)))))"

text \<open>\<^verbatim>\<open>listJobs\<close>, with its optional filter.\<close>

fun collect_jobs ::
  "(string, JobStatus) family \<Rightarrow> job_state option \<Rightarrow> string list \<Rightarrow> JobStatus list" where
  "collect_jobs fam statusFilter [] = []"
| "collect_jobs fam statusFilter (key # keys) =
     (case kv_get fam key of
        Some status \<Rightarrow>
          if statusFilter = None \<or> statusFilter = Some (st_status status)
          then status # collect_jobs fam statusFilter keys
          else collect_jobs fam statusFilter keys
      | None \<Rightarrow> collect_jobs fam statusFilter keys)"

definition listJobs :: "job_state option \<Rightarrow> kv_store \<Rightarrow> JobStatus list" where
  "listJobs statusFilter kv = collect_jobs (status_fam kv) statusFilter (kv_list (status_fam kv))"

text \<open>\<^verbatim>\<open>cancelJob\<close>: the first listed queue key whose name ends with \<^verbatim>\<open>:{jobId}\<close> is deleted.\<close>

definition cancelJob :: "int \<Rightarrow> string \<Rightarrow> kv_store \<Rightarrow> bool \<times> kv_store" where
  "cancelJob now jobId kv =
     (case getJobStatus jobId kv of
        None \<Rightarrow> (False, kv)
      | Some status \<Rightarrow>
          (let kv1 = (if st_status status = Queued
                      then (case find (\<lambda>key. endsWith (key_name key) (CHR '':'' # jobId))
                                   (kv_list (queue_fam kv)) of
                              Some key \<Rightarrow> kv\<lparr>queue_fam := kv_delete (queue_fam kv) key\<rparr>
                            | None \<Rightarrow> kv)
                      else kv);
               status1 = status\<lparr>st_status := Cancelled, st_finishedAt := Some now\<rparr>;
               status2 = (if truthy (st_startedAt status1)
                          then status1\<lparr>st_duration := Some (now - the (st_startedAt status1))\<rparr>
                          else status1)
           in (True, updateJobStatus jobId status2 kv1)))"

text \<open>\<^verbatim>\<open>retryJob\<close> and \<^verbatim>\<open>storeJobConfig\<close>.\<close>

definition retryJob :: "QueueConfig \<Rightarrow> int \<Rightarrow> string \<Rightarrow> kv_store \<Rightarrow> bool \<times> kv_store" where
  "retryJob config now jobId kv =
     (case getJobStatus jobId kv of
        None \<Rightarrow> (False, kv)
      | Some status \<Rightarrow>
          if st_status status \<noteq> Failure then (False, kv)
          else (case kv_get (job_fam kv) jobId of
                  None \<Rightarrow> (False, kv)
                | Some jobData \<Rightarrow> (True, enqueue config now jobData kv)))"

definition storeJobConfig :: "JobConfig \<Rightarrow> kv_store \<Rightarrow> kv_store" where
  "storeJobConfig job kv = kv\<lparr>job_fam := kv_put (job_fam kv) (job_id job) job\<rparr>"

text \<open>
  \<^verbatim>\<open>pruneCompletedJobs\<close>: the statuses are listed first, then the loop deletes, for each
  one that qualifies, the status and the job config stored under the id the record carries.
\<close>

definition prunable :: "int \<Rightarrow> JobStatus \<Rightarrow> bool" where
  "prunable cutoff status =
     (truthy (st_finishedAt status) \<and> the (st_finishedAt status) < cutoff \<and>
      st_status status \<in> {Success, Failure, Cancelled})"

fun prune_loop :: "int \<Rightarrow> JobStatus list \<Rightarrow> kv_store \<Rightarrow> int \<Rightarrow> int \<times> kv_store" where
  "prune_loop cutoff [] kv deleted = (deleted, kv)"
| "prune_loop cutoff (status # statuses) kv deleted =
     (if prunable cutoff status
      then prune_loop cutoff statuses
             (kv\<lparr>status_fam := kv_delete (status_fam kv) (st_id status),
                 job_fam := kv_delete (job_fam kv) (st_id status)\<rparr>)
             (deleted + 1)
      else prune_loop cutoff statuses kv deleted)"

definition pruneCompletedJobs :: "int \<Rightarrow> int \<Rightarrow> kv_store \<Rightarrow> int \<times> kv_store" where
  "pruneCompletedJobs now maxAge kv =
     (let cutoff = now - maxAge;
          statuses = listJobs None kv
      in prune_loop cutoff statuses kv 0)"

section \<open>Collaborators of the cache manager, the state manager and the orchestrator\<close>

text \<open>
  The sandbox (\<^verbatim>\<open>ISandbox\<close>), the clock, the hash and the base64 codec are not code of
  this repository: they are parameters, gathered in an environment. A sandbox has a state
  of an arbitrary type \<open>'sb\<close>; a call that rejects yields \<open>Inl\<close> of the message.
  Every awaited call is taken to settle, except a step's command, which is raced against
  a timer: \<open>sb_exec_race\<close> is the outcome of that \<^verbatim>\<open>Promise.race\<close> (the command resolved
  first, the command rejected first, or the timer fired first) for a command, a working
  directory and the timer's milliseconds.
  \<open>clock\<close> gives the successive readings of \<^verbatim>\<open>Date.now()\<close>, and \<open>kv_rejects\<close> says
  which of the orchestrator's calls to the queue reject (a failure of the store), by their
  position in the run.
\<close>

record ExecResult =
  ex_stdout :: "string option"
  ex_stderr :: "string option"
  ex_exitCode :: int

datatype race_outcome = CommandResolved ExecResult | CommandRejected exn | TimerFired

record 'sb env =
  sb_exec :: "string \<Rightarrow> string option \<Rightarrow> 'sb \<Rightarrow> (exn + ExecResult) \<times> 'sb"
  sb_exec_race :: "string \<Rightarrow> string \<Rightarrow> int \<Rightarrow> 'sb \<Rightarrow> race_outcome \<times> 'sb"
  sb_readFile :: "string \<Rightarrow> 'sb \<Rightarrow> exn + string"
  sb_writeFile :: "string \<Rightarrow> string \<Rightarrow> 'sb \<Rightarrow> (exn + unit) \<times> 'sb"
  clock :: "nat \<Rightarrow> int"
  kv_rejects :: "nat \<Rightarrow> exn option"
  sha256_hex :: "string \<Rightarrow> string"
  base64_encode :: "string \<Rightarrow> string"
  base64_decode :: "string \<Rightarrow> string"

record r2_object =
  r2_body :: string
  r2_customMetadata :: "(string \<times> string) list"

type_synonym r2_bucket = "(string \<times> r2_object) list"

definition r2_get :: "r2_bucket \<Rightarrow> string \<Rightarrow> r2_object option" where
  "r2_get bucket key = map_of bucket key"

definition r2_put :: "r2_bucket \<Rightarrow> string \<Rightarrow> r2_object \<Rightarrow> r2_bucket" where
  "r2_put bucket key obj = AList.update key obj bucket"

text \<open>
  The world a job runs in: the queue's store, the cache bucket and the family
  \<^verbatim>\<open>cache:{cacheKey}\<close> of the cache manager's store, the snapshot bucket, the sandbox
  bound to the job, and the numbers of clock readings and of queue calls made so far.
\<close>

record 'sb world =
  w_kv :: kv_store
  w_cache_r2 :: r2_bucket
  w_cache_kv :: "(string, CacheKey) family"
  w_state_r2 :: r2_bucket
  w_sandbox :: 'sb
  w_tick :: nat
  w_kv_calls :: nat

text \<open>An awaited call either rejects, and the rest is skipped, or hands its value on.\<close>

definition await ::
  "('w \<Rightarrow> (exn + 'a) \<times> 'w) \<Rightarrow> ('a \<Rightarrow> 'w \<Rightarrow> (exn + 'b) \<times> 'w) \<Rightarrow> 'w \<Rightarrow> (exn + 'b) \<times> 'w" where
  "await m f w = (case m w of (Inl e, w') \<Rightarrow> (Inl e, w') | (Inr x, w') \<Rightarrow> f x w')"

definition resolve :: "'a \<Rightarrow> 'w \<Rightarrow> (exn + 'a) \<times> 'w" where
  "resolve x w = (Inr x, w)"

definition throw :: "exn \<Rightarrow> 'w \<Rightarrow> (exn + 'a) \<times> 'w" where
  "throw e w = (Inl e, w)"

definition exec :: "'sb env \<Rightarrow> string \<Rightarrow> string option \<Rightarrow> 'sb world \<Rightarrow> (exn + ExecResult) \<times> 'sb world" where
  "exec env command workingDir w =
     (let (r, sb) = sb_exec env command workingDir (w_sandbox w) in (r, w\<lparr>w_sandbox := sb\<rparr>))"

definition readFile :: "'sb env \<Rightarrow> string \<Rightarrow> 'sb world \<Rightarrow> (exn + string) \<times> 'sb world" where
  "readFile env path w = (sb_readFile env path (w_sandbox w), w)"

definition writeFile :: "'sb env \<Rightarrow> string \<Rightarrow> string \<Rightarrow> 'sb world \<Rightarrow> (exn + unit) \<times> 'sb world" where
  "writeFile env path content w =
     (let (r, sb) = sb_writeFile env path content (w_sandbox w) in (r, w\<lparr>w_sandbox := sb\<rparr>))"

definition Date_now :: "'sb env \<Rightarrow> 'sb world \<Rightarrow> int \<times> 'sb world" where
  "Date_now env w = (clock env (w_tick w), w\<lparr>w_tick := Suc (w_tick w)\<rparr>)"

section \<open>CacheManager\<close>

text \<open>The loop of \<^verbatim>\<open>generateCacheKey\<close>: a lockfile that cannot be read is skipped.\<close>

fun read_lockfiles :: "'sb env \<Rightarrow> string list \<Rightarrow> 'sb \<Rightarrow> string list" where
  "read_lockfiles env [] sb = []"
| "read_lockfiles env (lockfile # lockfiles) sb =
     (case sb_readFile env lockfile sb of
        Inr content \<Rightarrow> content # read_lockfiles env lockfiles sb
      | Inl _ \<Rightarrow> read_lockfiles env lockfiles sb)"

definition generateCacheKey ::
  "'sb env \<Rightarrow> string \<Rightarrow> string \<Rightarrow> string list \<Rightarrow> 'sb option \<Rightarrow> string" where
  "generateCacheKey env repo commit lockfiles sandbox =
     (let parts = [repo, commit];
          parts1 =
            (case sandbox of
               Some sb \<Rightarrow>
                 if lockfiles \<noteq> [] then
                   (let lockfileContents = read_lockfiles env lockfiles sb
                    in if lockfileContents \<noteq> []
                       then parts @ [take 12 (sha256_hex env (concat lockfileContents))]
                       else parts)
                 else parts
             | None \<Rightarrow> parts)
      in join ''-'' parts1)"

definition archive_key :: "string \<Rightarrow> string" where
  "archive_key cacheKey = ''cache/'' @ cacheKey @ ''.tar.gz''"

text \<open>The probing loop of \<^verbatim>\<open>saveCache\<close>.\<close>

fun probe_paths :: "'sb env \<Rightarrow> string list \<Rightarrow> 'sb world \<Rightarrow> (exn + string list) \<times> 'sb world" where
  "probe_paths env [] w = (Inr [], w)"
| "probe_paths env (path # paths) w =
     await (exec env (''test -d '' @ path @ '' && echo exists || echo missing'') None)
       (\<lambda>result.
          await (probe_paths env paths)
            (\<lambda>existing.
               resolve (if map_option trim (ex_stdout result) = Some ''exists''
                        then path # existing else existing))) w"

definition saveCache ::
  "'sb env \<Rightarrow> string \<Rightarrow> string list \<Rightarrow> 'sb world \<Rightarrow> (exn + CacheKey) \<times> 'sb world" where
  "saveCache env cacheKey paths w0 =
     (let archiveKey = archive_key cacheKey;
          (timestamp, w) = Date_now env w0
      in await (probe_paths env paths)
           (\<lambda>existingPaths.
              if existingPaths = [] then throw ''No cache directories found to archive''
              else
                await (exec env (''tar -czf /tmp/cache.tar.gz '' @ join '' '' existingPaths) None)
                  (\<lambda>_. await (readFile env ''/tmp/cache.tar.gz'')
                  (\<lambda>archiveContent.
                     let archiveBuffer = base64_decode env archiveContent;
                         obj = \<lparr>r2_body = archiveBuffer,
                                r2_customMetadata =
                                  [(''cacheKey'', cacheKey), (''paths'', join '','' paths),
                                   (''timestamp'', show_int timestamp),
                                   (''size'', show_int (int (length archiveBuffer)))]\<rparr>;
                         cacheMetadata = \<lparr>ck_key = cacheKey, ck_paths = paths,
                                          ck_lastUsed = timestamp,
                                          ck_size = Some (int (length archiveBuffer))\<rparr>
                     in await (\<lambda>w. resolve () (w\<lparr>w_cache_r2 := r2_put (w_cache_r2 w) archiveKey obj\<rparr>))
                          (\<lambda>_. await (exec env ''rm /tmp/cache.tar.gz'' None)
                          (\<lambda>_. await (\<lambda>w. resolve ()
                                         (w\<lparr>w_cache_kv := kv_put (w_cache_kv w) cacheKey cacheMetadata\<rparr>))
                          (\<lambda>_. resolve cacheMetadata)))))) w)"

definition restoreCache :: "'sb env \<Rightarrow> string \<Rightarrow> 'sb world \<Rightarrow> (exn + bool) \<times> 'sb world" where
  "restoreCache env cacheKey w =
     (let archiveKey = archive_key cacheKey
      in case r2_get (w_cache_r2 w) archiveKey of
           None \<Rightarrow> (Inr False, w)
         | Some object \<Rightarrow>
             (let archiveBuffer = r2_body object;
                  archiveBase64 = base64_encode env archiveBuffer
              in await (writeFile env ''/tmp/cache.tar.gz'' archiveBase64)
                   (\<lambda>_. await (exec env ''tar -xzf /tmp/cache.tar.gz -C /'' None)
                   (\<lambda>_. await (exec env ''rm /tmp/cache.tar.gz'' None)
                   (\<lambda>_ w1.
                      (case kv_get (w_cache_kv w1) cacheKey of
                         Some metadata \<Rightarrow>
                           (let (now, w2) = Date_now env w1
                            in (Inr True,
                                w2\<lparr>w_cache_kv :=
                                     kv_put (w_cache_kv w2) cacheKey (metadata\<lparr>ck_lastUsed := now\<rparr>)\<rparr>))
                       | None \<Rightarrow> (Inr True, w1))))) w))"

definition getDefaultCachePaths :: "string \<Rightarrow> string list" where
  "getDefaultCachePaths projectType =
     (if projectType = ''node'' then [''node_modules'', ''.npm'', ''.yarn/cache'']
      else if projectType = ''python'' then [''.venv'', ''__pycache__'', ''.pip-cache'', ''.cache/pip'']
      else if projectType = ''go'' then [''go/pkg/mod'', ''.cache/go-build'']
      else if projectType = ''rust'' then [''target'', ''.cargo/registry'', ''.cargo/git'']
      else [])"

section \<open>StateManager\<close>

definition createSnapshot ::
  "'sb env \<Rightarrow> string \<Rightarrow> string \<Rightarrow> string list \<Rightarrow> 'sb world
     \<Rightarrow> (exn + WorkspaceSnapshot) \<times> 'sb world" where
  "createSnapshot env jobId commit paths w0 =
     (let (timestamp, w) = Date_now env w0;
          archiveKey = ''snapshots/'' @ jobId @ ''/'' @ commit @ ''/'' @ show_int timestamp @ ''.tar.gz''
      in await (exec env (''tar -czf /tmp/snapshot.tar.gz '' @ join '' '' paths) None)
           (\<lambda>_. await (readFile env ''/tmp/snapshot.tar.gz'')
           (\<lambda>archiveContent.
              let archiveBuffer = base64_decode env archiveContent;
                  obj = \<lparr>r2_body = archiveBuffer,
                         r2_customMetadata =
                           [(''jobId'', jobId), (''commit'', commit),
                            (''timestamp'', show_int timestamp), (''paths'', join '','' paths)]\<rparr>
              in await (\<lambda>w. resolve () (w\<lparr>w_state_r2 := r2_put (w_state_r2 w) archiveKey obj\<rparr>))
                   (\<lambda>_. await (exec env ''rm /tmp/snapshot.tar.gz'' None)
                   (\<lambda>_. resolve
                           \<lparr>snap_jobId = jobId, snap_sandboxId = ''unknown'', snap_commit = commit,
                            snap_timestamp = timestamp, snap_archivePath = archiveKey,
                            snap_size = int (length archiveBuffer)\<rparr>)))) w)"

section \<open>Orchestrator\<close>

text \<open>
  The orchestrator reaches the queue's store through \<^verbatim>\<open>getJobStatus\<close> and
  \<^verbatim>\<open>updateJobStatus\<close>, one call of the store each; the environment may reject a call.
\<close>

definition queue_getJobStatus ::
  "'sb env \<Rightarrow> string \<Rightarrow> 'sb world \<Rightarrow> (exn + JobStatus option) \<times> 'sb world" where
  "queue_getJobStatus env jobId w =
     (case kv_rejects env (w_kv_calls w) of
        Some e \<Rightarrow> (Inl e, w\<lparr>w_kv_calls := Suc (w_kv_calls w)\<rparr>)
      | None \<Rightarrow> (Inr (getJobStatus jobId (w_kv w)), w\<lparr>w_kv_calls := Suc (w_kv_calls w)\<rparr>))"

definition queue_updateJobStatus ::
  "'sb env \<Rightarrow> string \<Rightarrow> JobStatus \<Rightarrow> 'sb world \<Rightarrow> (exn + unit) \<times> 'sb world" where
  "queue_updateJobStatus env jobId status w =
     (case kv_rejects env (w_kv_calls w) of
        Some e \<Rightarrow> (Inl e, w\<lparr>w_kv_calls := Suc (w_kv_calls w)\<rparr>)
      | None \<Rightarrow>
          (Inr (), w\<lparr>w_kv := updateJobStatus jobId status (w_kv w),
                     w_kv_calls := Suc (w_kv_calls w)\<rparr>))"

text \<open>The loop \<^verbatim>\<open>for (const [key, value] of Object.entries(env))\<close> of exports.\<close>

fun export_env :: "'sb env \<Rightarrow> (string \<times> string) list \<Rightarrow> 'sb world \<Rightarrow> (exn + unit) \<times> 'sb world" where
  "export_env env [] w = (Inr (), w)"
| "export_env env ((key, val) # entries) w =
     await (exec env (''export '' @ key @ ''='' @ [CHR 0x22] @ val @ [CHR 0x22]) None)
       (\<lambda>_. export_env env entries) w"

definition setupWorkspace :: "'sb env \<Rightarrow> JobConfig \<Rightarrow> 'sb world \<Rightarrow> (exn + unit) \<times> 'sb world" where
  "setupWorkspace env job =
     await (exec env ''mkdir -p /workspace'' None)
       (\<lambda>_. await (exec env (''git clone '' @ job_repo job @ '' /workspace/repo'') (Some ''/workspace''))
       (\<lambda>_. await (exec env (''git checkout '' @ job_commit job) (Some ''/workspace/repo''))
       (\<lambda>_. case job_env job of
               Some entries \<Rightarrow> export_env env entries
             | None \<Rightarrow> resolve ())))"

text \<open>
  \<^verbatim>\<open>executeStep\<close>. \<open>step_body\<close> is the \<^verbatim>\<open>try\<close> block up to the settled race; the
  rest of the block, the \<^verbatim>\<open>catch\<close> and the \<^verbatim>\<open>finally\<close> fill the result in.
\<close>

definition step_body :: "'sb env \<Rightarrow> JobStep \<Rightarrow> 'sb world \<Rightarrow> (exn + ExecResult) \<times> 'sb world" where
  "step_body env step =
     (let workingDir = (case step_workingDir step of
                          Some d \<Rightarrow> if d = [] then ''/workspace/repo'' else d
                        | None \<Rightarrow> ''/workspace/repo'');
          timeout = (if truthy (step_timeout step) then the (step_timeout step) else 300)
      in await (case step_env step of
                  Some entries \<Rightarrow> export_env env entries
                | None \<Rightarrow> resolve ())
           (\<lambda>_ w.
              let (outcome, sb) = sb_exec_race env (step_run step) workingDir (timeout * 1000) (w_sandbox w);
                  w' = w\<lparr>w_sandbox := sb\<rparr>
              in case outcome of
                   CommandResolved execResult \<Rightarrow> (Inr execResult, w')
                 | CommandRejected e \<Rightarrow> (Inl e, w')
                 | TimerFired \<Rightarrow> (Inl ''Step timeout'', w')))"

definition executeStep :: "'sb env \<Rightarrow> JobStep \<Rightarrow> JobConfig \<Rightarrow> 'sb world \<Rightarrow> StepResult \<times> 'sb world" where
  "executeStep env step job w0 =
     (let (startedAt, w1) = Date_now env w0;
          result = \<lparr>res_name = step_name step, res_status = StepRunning, res_output = None,
                    res_exitCode = None, res_duration = None, res_startedAt = Some startedAt,
                    res_finishedAt = None\<rparr>;
          (r, w2) = step_body env step w1;
          result1 =
            (case r of
               Inr execResult \<Rightarrow>
                 result\<lparr>res_output :=
                          (case ex_stdout execResult of
                             Some out \<Rightarrow> if out = [] then ex_stderr execResult else Some out
                           | None \<Rightarrow> ex_stderr execResult),
                        res_exitCode := Some (ex_exitCode execResult),
                        res_status := (if ex_exitCode execResult = 0 then StepSuccess else StepFailure)\<rparr>
             | Inl e \<Rightarrow>
                 result\<lparr>res_status := StepFailure, res_output := Some e, res_exitCode := Some 1\<rparr>);
          (finishedAt, w3) = Date_now env w2
      in (result1\<lparr>res_finishedAt := Some finishedAt, res_duration := Some (finishedAt - startedAt)\<rparr>,
          w3))"

text \<open>The orchestrator's private \<^verbatim>\<open>restoreCache\<close> and \<^verbatim>\<open>saveCache\<close>: neither rejects.\<close>

definition Orchestrator_restoreCache :: "'sb env \<Rightarrow> JobConfig \<Rightarrow> 'sb world \<Rightarrow> bool \<times> 'sb world" where
  "Orchestrator_restoreCache env job w =
     (case job_cacheKeys job of
        None \<Rightarrow> (False, w)
      | Some cacheKeys \<Rightarrow>
          if cacheKeys = [] then (False, w)
          else
            (let cacheKey = generateCacheKey env (job_repo job) (job_commit job) cacheKeys
                              (Some (w_sandbox w))
             in case restoreCache env cacheKey w of
                  (Inr cacheHit, w') \<Rightarrow> (cacheHit, w')
                | (Inl _, w') \<Rightarrow> (False, w')))"

definition Orchestrator_saveCache :: "'sb env \<Rightarrow> JobConfig \<Rightarrow> 'sb world \<Rightarrow> 'sb world" where
  "Orchestrator_saveCache env job w =
     (case job_cacheKeys job of
        None \<Rightarrow> w
      | Some cacheKeys \<Rightarrow>
          if cacheKeys = [] then w
          else
            (let cacheKey = generateCacheKey env (job_repo job) (job_commit job) cacheKeys
                              (Some (w_sandbox w));
                 cachePaths = getDefaultCachePaths ''node'' @ getDefaultCachePaths ''python''
                              @ getDefaultCachePaths ''go''
             in snd (saveCache env cacheKey cachePaths w)))"

text \<open>
  \<^verbatim>\<open>status.steps[i] = stepResult\<close>. The loop starts at index \<open>0\<close> and each assignment makes
  the array longer than its index, so the index is never beyond the array's length: the
  assignment replaces a slot or appends one.
\<close>

definition set_index :: "'a list \<Rightarrow> nat \<Rightarrow> 'a \<Rightarrow> 'a list" where
  "set_index xs i v = (if i < length xs then xs[i := v] else xs @ [v])"

text \<open>The message \<^verbatim>\<open>`Step "${step.name}" failed`\<close> of a stopping failure.\<close>

definition step_failed_message :: "JobStep \<Rightarrow> string" where
  "step_failed_message step = ''Step '' @ [CHR 0x22] @ step_name step @ [CHR 0x22] @ '' failed''"

text \<open>
  The step loop of \<^verbatim>\<open>executeJob\<close>, from index \<open>i\<close> on. It mutates the local \<^verbatim>\<open>status\<close>
  object, which the \<^verbatim>\<open>catch\<close> and \<^verbatim>\<open>finally\<close> blocks go on using: the loop returns the
  exception that left it (if one did), the status object and the world.
\<close>

fun step_loop ::
  "'sb env \<Rightarrow> JobConfig \<Rightarrow> nat \<Rightarrow> JobStep list \<Rightarrow> JobStatus \<Rightarrow> 'sb world
     \<Rightarrow> exn option \<times> JobStatus \<times> 'sb world" where
  "step_loop env job i [] status w = (None, status, w)"
| "step_loop env job i (step # steps) status w =
     (let status1 = status\<lparr>st_currentStep := Some i\<rparr>
      in case queue_updateJobStatus env (job_id job) status1 w of
           (Inl e, w1) \<Rightarrow> (Some e, status1, w1)
         | (Inr _, w1) \<Rightarrow>
             (let (stepResult, w2) = executeStep env step job w1;
                  status2 = status1\<lparr>st_steps := set_index (st_steps status1) i stepResult\<rparr>
              in if res_status stepResult = StepFailure \<and> step_continueOnError step \<noteq> Some True
                 then (None,
                       status2\<lparr>st_status := Failure, st_error := Some (step_failed_message step)\<rparr>,
                       w2)
                 else step_loop env job (Suc i) steps status2 w2))"

text \<open>The \<^verbatim>\<open>try\<close> block of \<^verbatim>\<open>executeJob\<close>.\<close>

definition try_block ::
  "'sb env \<Rightarrow> JobConfig \<Rightarrow> JobStatus \<Rightarrow> 'sb world \<Rightarrow> exn option \<times> JobStatus \<times> 'sb world" where
  "try_block env job status w =
     (case setupWorkspace env job w of
        (Inl e, w1) \<Rightarrow> (Some e, status, w1)
      | (Inr _, w1) \<Rightarrow>
          (let (cacheHit, w2) = Orchestrator_restoreCache env job w1
           in case step_loop env job 0 (job_steps job) status w2 of
                (Some e, status1, w3) \<Rightarrow> (Some e, status1, w3)
              | (None, status1, w3) \<Rightarrow>
                  (let status2 =
                         (if list_all (\<lambda>s. res_status s = StepSuccess \<or> res_status s = Skipped)
                               (st_steps status1)
                          then status1\<lparr>st_status := Success\<rparr> else status1);
                       w4 = (if st_status status2 = Success \<and> job_cacheKeys job \<noteq> None
                                \<and> job_cacheKeys job \<noteq> Some []
                             then Orchestrator_saveCache env job w3 else w3)
                   in if st_status status2 = Success
                      then (case createSnapshot env (job_id job) (job_commit job) [''/workspace''] w4 of
                              (Inl e, w5) \<Rightarrow> (Some e, status2, w5)
                            | (Inr _, w5) \<Rightarrow> (None, status2, w5))
                      else (None, status2, w4))))"

text \<open>
  \<^verbatim>\<open>executeJob\<close>: \<open>Inl\<close> is an exception that reaches the caller, \<open>Inr\<close> the status
  returned.
\<close>

definition executeJob :: "'sb env \<Rightarrow> JobConfig \<Rightarrow> 'sb world \<Rightarrow> (exn + JobStatus) \<times> 'sb world" where
  "executeJob env job w =
     (case queue_getJobStatus env (job_id job) w of
        (Inl e, w0) \<Rightarrow> (Inl e, w0)
      | (Inr None, w0) \<Rightarrow> (Inl (''Job status not found: '' @ job_id job), w0)
      | (Inr (Some status), w0) \<Rightarrow>
          (let (thrown, status1, w1) = try_block env job status w0;
               status2 = (case thrown of
                            Some e \<Rightarrow> status1\<lparr>st_status := Failure, st_error := Some e\<rparr>
                          | None \<Rightarrow> status1);
               (finishedAt, w2) = Date_now env w1;
               status3 = status2\<lparr>st_finishedAt := Some finishedAt\<rparr>;
               status4 = (if truthy (st_startedAt status3)
                          then status3\<lparr>st_duration := Some (finishedAt - the (st_startedAt status3))\<rparr>
                          else status3)
           in case queue_updateJobStatus env (job_id job) status4 w2 of
                (Inl e, w3) \<Rightarrow> (Inl e, w3)
              | (Inr _, w3) \<Rightarrow> (Inr status4, w3)))"

section \<open>Predicates of the specification\<close>

text \<open>A non-empty string of decimal digits.\<close>

definition decimal :: "string \<Rightarrow> bool" where
  "decimal s = (s \<noteq> [] \<and> (\<forall>c \<in> set s. \<exists>d < 10. c = digit d))"

text \<open>A listed status key whose record reads as \<^verbatim>\<open>running\<close>.\<close>

definition running_at :: "(string, JobStatus) family \<Rightarrow> string \<Rightarrow> bool" where
  "running_at fam k = (case kv_get fam k of Some s \<Rightarrow> st_status s = Running | None \<Rightarrow> False)"

text \<open>A serial sequence of \<^verbatim>\<open>dequeue\<close> calls, one per clock reading.\<close>

fun dequeue_all :: "QueueConfig \<Rightarrow> int list \<Rightarrow> kv_store \<Rightarrow> kv_store" where
  "dequeue_all config [] kv = kv"
| "dequeue_all config (now # nows) kv = dequeue_all config nows (snd (dequeue config now kv))"

text \<open>The head of a sorted key list comes first under the comparator.\<close>

definition head_first :: "queue_key list \<Rightarrow> bool" where
  "head_first ys = (case ys of [] \<Rightarrow> True | h # _ \<Rightarrow> (\<forall>k \<in> set ys. compareKeys h k \<le> 0))"

text \<open>
  The records \<^verbatim>\<open>pruneCompletedJobs\<close> is specified to delete: status success, failure or
  cancelled, and \<^verbatim>\<open>finishedAt\<close> older than \<^verbatim>\<open>maxAge\<close>.
\<close>

definition expired_terminal :: "int \<Rightarrow> int \<Rightarrow> JobStatus \<Rightarrow> bool" where
  "expired_terminal now maxAge s =
     (st_status s \<in> {Success, Failure, Cancelled} \<and>
      (case st_finishedAt s of Some t \<Rightarrow> t < now - maxAge | None \<Rightarrow> False))"

definition expired_entry :: "int \<Rightarrow> int \<Rightarrow> JobStatus option \<Rightarrow> bool" where
  "expired_entry now maxAge v =
     (case v of Some s \<Rightarrow> expired_terminal now maxAge s | None \<Rightarrow> False)"

text \<open>
  The shape of the status family that the queue and the orchestrator maintain: each key is
  listed once, a record is stored under the id it carries (\<^verbatim>\<open>enqueue\<close> writes
  \<^verbatim>\<open>status:{job.id}\<close> with \<^verbatim>\<open>id: job.id\<close>, and every later write puts back a record read
  from the same key), and a \<^verbatim>\<open>finishedAt\<close> stamp is a reading of \<^verbatim>\<open>Date.now()\<close>, which is
  not \<open>0\<close>.
\<close>

definition well_keyed :: "kv_store \<Rightarrow> bool" where
  "well_keyed kv =
     (distinct (kv_list (status_fam kv)) \<and>
      list_all (\<lambda>(k, v). case v of
                          Some s \<Rightarrow> st_id s = k \<and> st_finishedAt s \<noteq> Some 0
                        | None \<Rightarrow> True)
        (status_fam kv))"

section \<open>Example inputs\<close>

definition example_step :: "string \<Rightarrow> string \<Rightarrow> bool option \<Rightarrow> JobStep" where
  "example_step name command continue =
     \<lparr>step_name = name, step_run = command, step_workingDir = None, step_env = None,
      step_continueOnError = continue, step_timeout = None\<rparr>"

definition example_job :: "string \<Rightarrow> int option \<Rightarrow> JobStep list \<Rightarrow> JobConfig" where
  "example_job jobId priority steps =
     \<lparr>job_id = jobId, job_repo = ''https://example.test/repo.git'', job_commit = ''main'',
      job_branch = ''main'', job_steps = steps, job_env = None, job_cacheKeys = None,
      job_timeout = None, job_priority = priority\<rparr>"

definition empty_store :: kv_store where
  "empty_store = \<lparr>queue_fam = [], status_fam = [], job_fam = []\<rparr>"

text \<open>The scenario of the specification: A (priority 5, t=0), B (priority 8, t=1), C (priority 5, t=2).\<close>

definition job_A :: JobConfig where "job_A = example_job ''A'' (Some 5) []"

definition job_B :: JobConfig where "job_B = example_job ''B'' (Some 8) []"

definition job_C :: JobConfig where "job_C = example_job ''C'' (Some 5) []"

definition store_ABC :: kv_store where
  "store_ABC = enqueue default_config 2 job_C
                 (enqueue default_config 1 job_B (enqueue default_config 0 job_A empty_store))"

definition one_at_a_time :: QueueConfig where
  "one_at_a_time = \<lparr>maxConcurrent = 1, defaultPriority = 5, maxRetries = 3\<rparr>"

definition store_AC :: kv_store where
  "store_AC = snd (dequeue default_config 10 store_ABC)"

definition store_C :: kv_store where
  "store_C = snd (dequeue default_config 11 store_AC)"

text \<open>A queue whose first entry under the sort is listed but no longer readable.\<close>

definition store_expired_head :: kv_store where
  "store_expired_head =
     \<lparr>queue_fam = [(QueueKey 5 1 ''A'', Some job_A), (QueueKey 9 0 ''X'', None)],
      status_fam = [], job_fam = []\<rparr>"

text \<open>A store with a history of finished, running and waiting jobs.\<close>

definition example_status :: "string \<Rightarrow> job_state \<Rightarrow> int option \<Rightarrow> int option \<Rightarrow> JobStatus" where
  "example_status jobId state started finished =
     \<lparr>st_id = jobId, st_status = state, st_currentStep = None, st_startedAt = started,
      st_finishedAt = finished, st_duration = None, st_steps = [], st_sandboxId = None,
      st_error = None\<rparr>"

definition store_history :: kv_store where
  "store_history =
     \<lparr>queue_fam = [(QueueKey 5 950 ''waiting'', Some (example_job ''waiting'' None []))],
      status_fam =
        [(''old-success'', Some (example_status ''old-success'' Success (Some 90) (Some 100))),
         (''old-timeout'', Some (example_status ''old-timeout'' Timeout (Some 90) (Some 100))),
         (''old-failure'', Some (example_status ''old-failure'' Failure (Some 150) (Some 200))),
         (''new-cancelled'', Some (example_status ''new-cancelled'' Cancelled None (Some 900))),
         (''active'', Some (example_status ''active'' Running (Some 940) None)),
         (''waiting'', Some (example_status ''waiting'' Queued None None))],
      job_fam =
        [(''old-success'', Some (example_job ''old-success'' None [])),
         (''old-timeout'', Some (example_job ''old-timeout'' None [])),
         (''old-failure'', Some (example_job ''old-failure'' None [])),
         (''active'', Some (example_job ''active'' None []))]\<rparr>"

text \<open>A job that has finished with success, and one that has finished with failure.\<close>

definition status_done :: JobStatus where
  "status_done = example_status ''A'' Success (Some 10) (Some 20)"

definition store_done :: kv_store where
  "store_done = \<lparr>queue_fam = [], status_fam = [(''A'', Some status_done)],
                 job_fam = [(''A'', Some job_A)]\<rparr>"

definition status_failed :: JobStatus where
  "status_failed = example_status ''A'' Failure (Some 10) (Some 20)"

definition store_failed :: kv_store where
  "store_failed = \<lparr>queue_fam = [], status_fam = [(''A'', Some status_failed)],
                   job_fam = [(''A'', Some job_A)]\<rparr>"

text \<open>
  An environment for running examples. The sandbox state is a list of files; a command
  leaves the files alone and resolves with the exit code \<open>exit_code\<close> gives it; the clock
  reads 1000, 1001, ...; \<open>rejects\<close> says which queue calls fail and \<open>hash\<close> stands for the
  digest.
\<close>

type_synonym files = "(string \<times> string) list"

definition example_env ::
  "(string \<Rightarrow> int) \<Rightarrow> (nat \<Rightarrow> exn option) \<Rightarrow> (string \<Rightarrow> string) \<Rightarrow> files env" where
  "example_env exit_code rejects hash =
     \<lparr>sb_exec = (\<lambda>command workingDir fs.
                   (Inr \<lparr>ex_stdout = None, ex_stderr = None, ex_exitCode = 0\<rparr>, fs)),
      sb_exec_race = (\<lambda>command workingDir ms fs.
                   (CommandResolved
                      \<lparr>ex_stdout = None, ex_stderr = None, ex_exitCode = exit_code command\<rparr>, fs)),
      sb_readFile = (\<lambda>path fs. case map_of fs path of
                                  Some content \<Rightarrow> Inr content
                                | None \<Rightarrow> Inl (''ENOENT: '' @ path)),
      sb_writeFile = (\<lambda>path content fs. (Inr (), AList.update path content fs)),
      clock = (\<lambda>n. 1000 + int n),
      kv_rejects = rejects,
      sha256_hex = hash,
      base64_encode = (\<lambda>s. s),
      base64_decode = (\<lambda>s. s)\<rparr>"

definition example_world :: "kv_store \<Rightarrow> files \<Rightarrow> files world" where
  "example_world kv fs =
     \<lparr>w_kv = kv, w_cache_r2 = [], w_cache_kv = [], w_state_r2 = [], w_sandbox = fs,
      w_tick = 0, w_kv_calls = 0\<rparr>"

definition exit_codes :: "string \<Rightarrow> int" where
  "exit_codes command = (if command = ''false'' then 1 else 0)"

definition never :: "nat \<Rightarrow> exn option" where
  "never n = None"

definition reject_at :: "nat \<Rightarrow> exn \<Rightarrow> nat \<Rightarrow> exn option" where
  "reject_at k e n = (if n = k then Some e else None)"

text \<open>A world whose cache bucket holds a bundle, but for another key.\<close>

definition world_other_bundle :: "files world" where
  "world_other_bundle =
     (example_world empty_store [(''package-lock.json'', ''{}'')])
       \<lparr>w_cache_r2 := [(archive_key ''repo-main-0123456789ab'',
                         \<lparr>r2_body = ''bundle'', r2_customMetadata = []\<rparr>)]\<rparr>"

text \<open>
  The step scenarios of the specification (the command \<^verbatim>\<open>false\<close> exits with 1), and the
  store after a job has been enqueued and dequeued.
\<close>

definition job_stop :: JobConfig where
  "job_stop = example_job ''stop'' None
     [example_step ''A'' ''true'' None, example_step ''B'' ''false'' (Some False),
      example_step ''C'' ''true'' None]"

definition job_continue :: JobConfig where
  "job_continue = example_job ''continue'' None
     [example_step ''A'' ''false'' (Some True), example_step ''B'' ''true'' None]"

definition job_single :: JobConfig where
  "job_single = example_job ''single'' None [example_step ''build'' ''false'' None]"

definition job_pass :: JobConfig where
  "job_pass = example_job ''pass'' None [example_step ''build'' ''true'' None]"

definition dispatched :: "JobConfig \<Rightarrow> kv_store" where
  "dispatched job = snd (dequeue default_config 1 (enqueue default_config 0 job empty_store))"

text \<open>The example environment with a sandbox in which \<^verbatim>\<open>git clone\<close> rejects.\<close>

definition clone_fails :: "files env" where
  "clone_fails =
     (example_env exit_codes never id)
       \<lparr>sb_exec := (\<lambda>command workingDir fs.
                     if take 9 command = ''git clone''
                     then (Inl ''clone failed'', fs)
                     else (Inr \<lparr>ex_stdout = None, ex_stderr = None, ex_exitCode = 0\<rparr>, fs))\<rparr>"

lemmas queue_defs = enqueue_def dequeue_def Let_def updateJobStatus_def getJobStatus_def
  kv_put_def kv_get_def kv_list_def kv_delete_def getRunningJobCount_def sort_by_def
  compareKeys_def pending_result_def

lemmas example_defs = store_ABC_def store_AC_def store_C_def job_A_def job_B_def job_C_def
  example_job_def example_step_def empty_store_def default_config_def one_at_a_time_def
  store_expired_head_def

lemmas history_defs = store_history_def example_status_def example_job_def

lemmas orch_defs = executeJob_def try_block_def queue_getJobStatus_def queue_updateJobStatus_def
  setupWorkspace_def await_def resolve_def throw_def exec_def readFile_def writeFile_def
  Date_now_def Orchestrator_restoreCache_def Orchestrator_saveCache_def executeStep_def
  step_body_def set_index_def truthy_def createSnapshot_def step_failed_message_def

lemmas orch_example_defs = example_env_def example_world_def exit_codes_def never_def
  reject_at_def job_stop_def job_continue_def job_single_def dispatched_def

section \<open>Queue key names\<close>

text \<open>
  The decimal rendering of an integer is read back by \<^verbatim>\<open>parseInt\<close>, so the comparator
  of the source, on the names of two queue keys, is \<open>compareKeys\<close> on the keys; and a
  name determines its key.
\<close>

lemma digit_code: "d < 10 \<Longrightarrow> (of_char (digit d) :: nat) = 48 + d"
  by (simp add: digit_def)

lemma digit_value_digit: "d < 10 \<Longrightarrow> digit_value (digit d) = d"
  by (simp add: digit_value_def digit_code Let_def)

lemma decimal_codes:
  assumes "decimal s" and "c \<in> set s"
  shows "48 \<le> (of_char c :: nat) \<and> (of_char c :: nat) \<le> 57"
  using assms digit_code by (fastforce simp: decimal_def)

lemma code_values:
  "(of_char CHR ''-'' :: nat) = 45" "(of_char CHR ''+'' :: nat) = 43"
  "(of_char CHR ''x'' :: nat) = 120" "(of_char CHR ''X'' :: nat) = 88"
  "(of_char CHR '':'' :: nat) = 58"
  "(of_char CHR 0x09 :: nat) = 9" "(of_char CHR 0x0A :: nat) = 10" "(of_char CHR 0x0B :: nat) = 11"
  "(of_char CHR 0x0C :: nat) = 12" "(of_char CHR 0x0D :: nat) = 13" "(of_char CHR 0x20 :: nat) = 32"
  by simp_all

lemma decimal_not_special:
  assumes "decimal s" and "c \<in> set s"
  shows "\<not> is_space c" and "c \<noteq> CHR ''-''" and "c \<noteq> CHR ''+''"
    and "c \<noteq> CHR ''x''" and "c \<noteq> CHR ''X''" and "c \<noteq> CHR '':''"
proof -
  have codes: "48 \<le> (of_char c :: nat)" "(of_char c :: nat) \<le> 57"
    using decimal_codes[OF assms] by simp_all
  show "c \<noteq> CHR ''-''" using codes code_values(1) by force
  show "c \<noteq> CHR ''+''" using codes code_values(2) by force
  show "c \<noteq> CHR ''x''" using codes code_values(3) by force
  show "c \<noteq> CHR ''X''" using codes code_values(4) by force
  show "c \<noteq> CHR '':''" using codes code_values(5) by force
  have "c \<noteq> CHR 0x09" using codes code_values(6) by force
  moreover have "c \<noteq> CHR 0x0A" using codes code_values(7) by force
  moreover have "c \<noteq> CHR 0x0B" using codes code_values(8) by force
  moreover have "c \<noteq> CHR 0x0C" using codes code_values(9) by force
  moreover have "c \<noteq> CHR 0x0D" using codes code_values(10) by force
  moreover have "c \<noteq> CHR 0x20" using codes code_values(11) by force
  ultimately show "\<not> is_space c" by (simp add: is_space_def)
qed

lemma decimal_show_nat: "decimal (show_nat n)"
proof (induction n rule: show_nat.induct)
  case (1 n)
  show ?case
  proof (cases "n < 10")
    case True
    then show ?thesis by (subst show_nat.simps) (auto simp: decimal_def)
  next
    case False
    with 1 have "decimal (show_nat (n div 10))" by simp
    moreover have "n mod 10 < 10" by simp
    ultimately show ?thesis using False
      by (subst show_nat.simps) (auto simp: decimal_def intro!: exI[of _ "n mod 10"])
  qed
qed

lemma value_show_nat:
  "foldl (\<lambda>acc c. acc * 10 + digit_value c) 0 (show_nat n) = n"
proof (induction n rule: show_nat.induct)
  case (1 n)
  show ?case
  proof (cases "n < 10")
    case True
    then show ?thesis by (subst show_nat.simps) (simp add: digit_value_digit)
  next
    case False
    with 1 have "foldl (\<lambda>acc c. acc * 10 + digit_value c) 0 (show_nat (n div 10)) = n div 10"
      by simp
    then show ?thesis using False
      by (subst show_nat.simps) (simp add: digit_value_digit)
  qed
qed

lemma parseInt_decimal:
  assumes "decimal s"
  shows "parseInt s = Some (int (foldl (\<lambda>acc c. acc * 10 + digit_value c) 0 s))"
    and "parseInt (CHR ''-'' # s)
           = Some (- int (foldl (\<lambda>acc c. acc * 10 + digit_value c) 0 s))"
proof -
  from assms obtain c cs where s: "s = c # cs" by (cases s) (auto simp: decimal_def)
  then have c_in: "c \<in> set s" by simp
  have sp: "dropWhile is_space s = s"
    using decimal_not_special(1)[OF assms c_in] by (simp add: s)
  have sign: "take (Suc 0) s \<noteq> ''-''" "take (Suc 0) s \<noteq> ''+''"
    using decimal_not_special(2,3)[OF assms c_in] by (simp_all add: s)
  have nohex: "take 2 s \<noteq> ''0x''" "take 2 s \<noteq> ''0X''"
  proof -
    show "take 2 s \<noteq> ''0x''"
    proof
      assume "take 2 s = ''0x''"
      then have "CHR ''x'' \<in> set (take 2 s)" by simp
      then have "CHR ''x'' \<in> set s" by (rule in_set_takeD)
      with decimal_not_special(4)[OF assms] show False by blast
    qed
    show "take 2 s \<noteq> ''0X''"
    proof
      assume "take 2 s = ''0X''"
      then have "CHR ''X'' \<in> set (take 2 s)" by simp
      then have "CHR ''X'' \<in> set s" by (rule in_set_takeD)
      with decimal_not_special(5)[OF assms] show False by blast
    qed
  qed
  have "\<forall>c \<in> set s. digit_value c < 10"
    using assms by (auto simp: decimal_def digit_value_digit)
  then have digits: "takeWhile (\<lambda>c. digit_value c < 10) s = s"
    by (simp add: takeWhile_eq_all_conv)
  have ne: "s \<noteq> []" by (simp add: s)
  show "parseInt s = Some (int (foldl (\<lambda>acc c. acc * 10 + digit_value c) 0 s))"
    unfolding parseInt_def Let_def by (simp add: sp sign nohex digits ne)
  have minus: "dropWhile is_space (CHR ''-'' # s) = CHR ''-'' # s"
    by (simp add: is_space_def)
  show "parseInt (CHR ''-'' # s)
          = Some (- int (foldl (\<lambda>acc c. acc * 10 + digit_value c) 0 s))"
    unfolding parseInt_def Let_def minus by (simp add: nohex digits ne)
qed

lemma parseInt_show_int: "parseInt (show_int i) = Some i"
  using parseInt_decimal[OF decimal_show_nat, of "nat i"]
        parseInt_decimal[OF decimal_show_nat, of "nat (- i)"]
  by (simp add: show_int_def value_show_nat)

lemma no_colon_show_int: "CHR '':'' \<notin> set (show_int i)"
  using decimal_not_special(6)[OF decimal_show_nat[of "nat i"]]
        decimal_not_special(6)[OF decimal_show_nat[of "nat (- i)"]]
  by (auto simp: show_int_def)

lemma split_at_nonempty: "split_at sep s \<noteq> []"
  by (induction s) (auto split: list.splits)

lemma split_at_field:
  "sep \<notin> set a \<Longrightarrow> split_at sep (a @ sep # b) = a # split_at sep b"
  by (induction a) (auto split: list.splits)

lemma split_key_name:
  "split_at CHR '':'' (key_name k)
     = ''queue'' # show_int (qk_priority k) # show_int (qk_timestamp k)
         # split_at CHR '':'' (qk_jobId k)"
proof -
  have q: "CHR '':'' \<notin> set ''queue''" by simp
  have "key_name k = ''queue'' @ CHR '':'' # (show_int (qk_priority k) @ CHR '':'' #
           (show_int (qk_timestamp k) @ CHR '':'' # qk_jobId k))"
    by (simp add: key_name_def)
  then have "split_at CHR '':'' (key_name k)
      = ''queue'' # split_at CHR '':'' (show_int (qk_priority k) @ CHR '':'' #
           (show_int (qk_timestamp k) @ CHR '':'' # qk_jobId k))"
    using split_at_field[OF q] by simp
  then show ?thesis
    by (simp add: split_at_field[OF no_colon_show_int])
qed

lemma key_name_fields:
  "Option.bind (nth_opt (split_at CHR '':'' (key_name k)) 1) parseInt = Some (qk_priority k)"
  "Option.bind (nth_opt (split_at CHR '':'' (key_name k)) 2) parseInt = Some (qk_timestamp k)"
  by (simp_all add: split_key_name nth_opt_def parseInt_show_int)

lemma compareNames_key_name:
  "compareNames (key_name a) (key_name b) = Some (compareKeys a b)"
  unfolding compareNames_def Let_def key_name_fields
  by (simp add: compareKeys_def Let_def)

lemma join_split_at: "join [sep] (split_at sep s) = s"
proof (induction s)
  case Nil
  then show ?case by simp
next
  case (Cons c s)
  obtain part parts where sp: "split_at sep s = part # parts"
    using split_at_nonempty[of sep s] by (cases "split_at sep s") auto
  show ?case
  proof (cases parts)
    case Nil
    with Cons sp show ?thesis by simp
  next
    case (Cons p ps)
    with Cons.IH sp show ?thesis by simp
  qed
qed

lemma show_int_inject:
  assumes "show_int i = show_int j"
  shows "i = j"
proof -
  have "Some i = parseInt (show_int i)" by (simp only: parseInt_show_int)
  also have "\<dots> = parseInt (show_int j)" by (simp only: assms)
  also have "\<dots> = Some j" by (simp only: parseInt_show_int)
  finally show ?thesis by simp
qed

lemma split_at_inject:
  assumes "split_at sep s = split_at sep t"
  shows "s = t"
proof -
  have "s = join [sep] (split_at sep s)" by (simp only: join_split_at)
  also have "\<dots> = join [sep] (split_at sep t)" by (simp only: assms)
  also have "\<dots> = t" by (simp only: join_split_at)
  finally show ?thesis .
qed

lemma key_name_inject:
  assumes "key_name a = key_name b"
  shows "a = b"
proof -
  have "split_at CHR '':'' (key_name a) = split_at CHR '':'' (key_name b)"
    by (simp only: assms)
  then have "show_int (qk_priority a) = show_int (qk_priority b)"
    and "show_int (qk_timestamp a) = show_int (qk_timestamp b)"
    and "split_at CHR '':'' (qk_jobId a) = split_at CHR '':'' (qk_jobId b)"
    unfolding split_key_name by (simp_all only: list.inject)
  then have "qk_priority a = qk_priority b" "qk_timestamp a = qk_timestamp b"
    "qk_jobId a = qk_jobId b"
    by (blast dest: show_int_inject split_at_inject)+
  then show ?thesis by (cases a; cases b) simp
qed

section \<open>The store\<close>

lemma kv_get_put: "kv_get (kv_put fam k v) k' = (if k' = k then Some v else kv_get fam k')"
  by (simp add: kv_get_def kv_put_def update_conv')

lemma kv_list_put_present:
  "k \<in> set (kv_list fam) \<Longrightarrow> kv_list (kv_put fam k v) = kv_list fam"
  by (simp add: kv_list_def kv_put_def update_keys)

lemma kv_get_Some_listed: "kv_get fam k = Some v \<Longrightarrow> k \<in> set (kv_list fam)"
  by (auto simp: kv_get_def kv_list_def split: option.splits dest!: map_of_SomeD
           intro: rev_image_eqI)

lemma distinct_kv_put: "distinct (kv_list fam) \<Longrightarrow> distinct (kv_list (kv_put fam k v))"
  by (simp add: kv_list_def kv_put_def distinct_update)

lemma kv_get_entry:
  "distinct (map fst fam) \<Longrightarrow> (k, v) \<in> set fam \<Longrightarrow> kv_get fam k = v"
  by (cases v) (simp_all add: kv_get_def)

lemma kv_get_SomeD: "kv_get fam k = Some s \<Longrightarrow> (k, Some s) \<in> set fam"
  by (auto simp: kv_get_def split: option.splits dest: map_of_SomeD)

lemma kv_delete_filter: "kv_delete fam k = filter (\<lambda>(k', v). k' \<noteq> k) fam"
  by (auto simp: kv_delete_def AList.delete_eq intro: filter_cong)

lemma kv_put_listed: "k \<in> set (kv_list (kv_put fam k v))"
  by (auto simp: kv_list_def kv_put_def update_keys)

section \<open>Admission control\<close>

lemma count_running_eq:
  "count_running fam keys c = c + int (length (filter (running_at fam) keys))"
  by (induction keys arbitrary: c) (auto simp: running_at_def split: option.splits)

lemma filter_change_one:
  "distinct xs \<Longrightarrow> (\<forall>x. x \<noteq> a \<longrightarrow> P' x = P x) \<Longrightarrow>
   length (filter P' xs) \<le> Suc (length (filter P xs))"
proof (induction xs)
  case Nil
  then show ?case by simp
next
  case (Cons x xs)
  show ?case
  proof (cases "x = a")
    case True
    with Cons.prems have "a \<notin> set xs" by simp
    with Cons.prems have "filter P' xs = filter P xs"
      by (intro filter_cong) auto
    then show ?thesis by simp
  next
    case False
    with Cons show ?thesis by auto
  qed
qed

lemma running_count_put:
  assumes "distinct (kv_list fam)" and "k \<in> set (kv_list fam)"
  shows "count_running (kv_put fam k v) (kv_list (kv_put fam k v)) 0
           \<le> count_running fam (kv_list fam) 0 + 1"
proof -
  have "\<forall>x. x \<noteq> k \<longrightarrow> running_at (kv_put fam k v) x = running_at fam x"
    by (simp add: running_at_def kv_get_put)
  from filter_change_one[OF assms(1) this]
  show ?thesis using assms(2) by (simp add: count_running_eq kv_list_put_present)
qed

text \<open>A \<^verbatim>\<open>dequeue\<close> leaves the statuses alone or marks one stored record as running.\<close>

lemma dequeue_status_cases:
  "status_fam (snd (dequeue config now kv)) = status_fam kv \<or>
   (getRunningJobCount kv < maxConcurrent config \<and>
    (\<exists>k s. kv_get (status_fam kv) k = Some s \<and>
       status_fam (snd (dequeue config now kv))
         = kv_put (status_fam kv) k (s\<lparr>st_status := Running, st_startedAt := Some now\<rparr>)))"
  by (auto simp: dequeue_def Let_def getJobStatus_def updateJobStatus_def
           split: list.splits option.splits)

lemma dequeue_step:
  assumes "distinct (kv_list (status_fam kv))"
    and "getRunningJobCount kv \<le> maxConcurrent config"
  shows "distinct (kv_list (status_fam (snd (dequeue config now kv)))) \<and>
         getRunningJobCount (snd (dequeue config now kv)) \<le> maxConcurrent config"
  using dequeue_status_cases[of config now kv]
proof
  assume "status_fam (snd (dequeue config now kv)) = status_fam kv"
  then show ?thesis using assms by (simp add: getRunningJobCount_def)
next
  assume h: "getRunningJobCount kv < maxConcurrent config \<and>
    (\<exists>k s. kv_get (status_fam kv) k = Some s \<and>
       status_fam (snd (dequeue config now kv))
         = kv_put (status_fam kv) k (s\<lparr>st_status := Running, st_startedAt := Some now\<rparr>))"
  then obtain k s where ks: "kv_get (status_fam kv) k = Some s"
    and eq: "status_fam (snd (dequeue config now kv))
         = kv_put (status_fam kv) k (s\<lparr>st_status := Running, st_startedAt := Some now\<rparr>)"
    by blast
  have "k \<in> set (kv_list (status_fam kv))" using ks by (rule kv_get_Some_listed)
  from running_count_put[OF assms(1) this, of "s\<lparr>st_status := Running, st_startedAt := Some now\<rparr>"]
  have "getRunningJobCount (snd (dequeue config now kv)) \<le> getRunningJobCount kv + 1"
    by (simp add: getRunningJobCount_def eq)
  moreover have "getRunningJobCount kv < maxConcurrent config" using h by blast
  ultimately show ?thesis using assms(1) by (simp add: eq distinct_kv_put)
qed

lemma dequeue_all_bound:
  "distinct (kv_list (status_fam kv)) \<Longrightarrow> getRunningJobCount kv \<le> maxConcurrent config \<Longrightarrow>
   getRunningJobCount (dequeue_all config nows kv) \<le> maxConcurrent config"
proof (induction nows arbitrary: kv)
  case Nil
  then show ?case by simp
next
  case (Cons now nows)
  from dequeue_step[OF Cons.prems, of now] Cons.IH show ?case by simp
qed

text \<open>
  C3. \<^verbatim>\<open>dequeue\<close> first counts the listed statuses that read as running; when that count
  has reached \<^verbatim>\<open>maxConcurrent\<close> it returns \<^verbatim>\<open>null\<close> and the store is the one it started
  from (no queue entry removed, no status changed). Hence, from a store that lists each
  status key once and holds at most \<^verbatim>\<open>maxConcurrent\<close> running records, every serial
  sequence of \<^verbatim>\<open>dequeue\<close> calls ends in a store with at most \<^verbatim>\<open>maxConcurrent\<close> running
  records (every prefix of the sequence is such a sequence, so the bound holds throughout).
\<close>

theorem dequeue_admission:
  "getRunningJobCount kv
     = int (length (filter (running_at (status_fam kv)) (kv_list (status_fam kv)))) \<and>
   (getRunningJobCount kv \<ge> maxConcurrent config \<longrightarrow> dequeue config now kv = (None, kv)) \<and>
   (distinct (kv_list (status_fam kv)) \<and> getRunningJobCount kv \<le> maxConcurrent config \<longrightarrow>
      getRunningJobCount (dequeue_all config nows kv) \<le> maxConcurrent config)"
proof (intro conjI impI)
  show "getRunningJobCount kv
          = int (length (filter (running_at (status_fam kv)) (kv_list (status_fam kv))))"
    by (simp add: getRunningJobCount_def count_running_eq)
  show "dequeue config now kv = (None, kv)" if "getRunningJobCount kv \<ge> maxConcurrent config"
    using that by (simp add: dequeue_def)
  show "getRunningJobCount (dequeue_all config nows kv) \<le> maxConcurrent config"
    if "distinct (kv_list (status_fam kv)) \<and> getRunningJobCount kv \<le> maxConcurrent config"
    using that dequeue_all_bound by blast
qed

text \<open>
  The scenario of the specification with \<^verbatim>\<open>maxConcurrent = 1\<close>: once B is running, the
  next \<^verbatim>\<open>dequeue\<close> returns no job and changes nothing.
\<close>

theorem dequeue_admission_witness:
  "getRunningJobCount store_AC = 1 \<and> maxConcurrent one_at_a_time = 1 \<and>
   dequeue one_at_a_time 11 store_AC = (None, store_AC) \<and>
   distinct (kv_list (status_fam store_ABC)) \<and> getRunningJobCount store_ABC = 0 \<and>
   getRunningJobCount (dequeue_all one_at_a_time [10, 11, 12] store_ABC) \<le> 1"
proof -
  have cap: "maxConcurrent one_at_a_time \<le> getRunningJobCount store_AC"
    and one: "getRunningJobCount store_AC = 1" "maxConcurrent one_at_a_time = 1"
    by (simp_all add: example_defs queue_defs)
  have start: "distinct (kv_list (status_fam store_ABC))" "getRunningJobCount store_ABC = 0"
    by (simp_all add: example_defs queue_defs)
  from dequeue_admission[of store_AC one_at_a_time 11 "[]"] cap
  have "dequeue one_at_a_time 11 store_AC = (None, store_AC)" by blast
  moreover from dequeue_admission[of store_ABC one_at_a_time 10 "[10, 11, 12]"] start one(2)
  have "getRunningJobCount (dequeue_all one_at_a_time [10, 11, 12] store_ABC) \<le> 1" by simp
  ultimately show ?thesis using one start by simp
qed

section \<open>Dequeue order\<close>

lemma cmp_le_iff:
  "compareKeys a b \<le> 0 \<longleftrightarrow>
     qk_priority b < qk_priority a \<or>
     (qk_priority a = qk_priority b \<and> qk_timestamp a \<le> qk_timestamp b)"
  by (auto simp: compareKeys_def Let_def)

lemma set_insert_by: "set (insert_by cmp x ys) = insert x (set ys)"
  by (induction ys) auto

lemma set_sort_by: "set (sort_by cmp xs) = set xs"
  by (induction xs) (auto simp: sort_by_def set_insert_by)

lemma insert_by_head_first: "head_first ys \<Longrightarrow> head_first (insert_by compareKeys x ys)"
  by (cases ys) (auto simp: head_first_def cmp_le_iff set_insert_by)

lemma sort_by_head_first: "head_first (sort_by compareKeys xs)"
proof (induction xs)
  case Nil
  then show ?case by (simp add: sort_by_def head_first_def)
next
  case (Cons x xs)
  then show ?case
    using insert_by_head_first[of "sort_by compareKeys xs" x] by (simp add: sort_by_def)
qed

lemma sort_by_head:
  assumes "sort_by compareKeys xs = h # rest"
  shows "h \<in> set xs \<and> (\<forall>k \<in> set xs. compareKeys h k \<le> 0)"
proof -
  have "h \<in> set (sort_by compareKeys xs)" using assms by simp
  moreover have "head_first (h # rest)" using sort_by_head_first[of xs] assms by simp
  ultimately show ?thesis
    using assms set_sort_by[of compareKeys xs] by (auto simp: head_first_def)
qed

lemma dequeue_selects:
  assumes "dequeue config now kv = (Some job, kv')"
  shows "\<exists>k \<in> set (kv_list (queue_fam kv)).
           kv_get (queue_fam kv) k = Some job \<and>
           queue_fam kv' = kv_delete (queue_fam kv) k \<and>
           (\<forall>k' \<in> set (kv_list (queue_fam kv)).
              qk_priority k' < qk_priority k \<or>
              (qk_priority k' = qk_priority k \<and> qk_timestamp k \<le> qk_timestamp k'))"
proof -
  from assms obtain firstKey rest where
    sorted: "sort_by compareKeys (kv_list (queue_fam kv)) = firstKey # rest"
    and got: "kv_get (queue_fam kv) firstKey = Some job"
    and q: "queue_fam kv' = kv_delete (queue_fam kv) firstKey"
    by (auto simp: dequeue_def Let_def updateJobStatus_def
             split: if_splits list.splits option.splits)
  from sort_by_head[OF sorted] have "firstKey \<in> set (kv_list (queue_fam kv))"
    and "\<forall>k' \<in> set (kv_list (queue_fam kv)). compareKeys firstKey k' \<le> 0"
    by blast+
  then show ?thesis using got q by (auto simp: cmp_le_iff intro!: bexI[of _ firstKey])
qed

lemma dequeue_progress:
  assumes "getRunningJobCount kv < maxConcurrent config"
    and "kv_list (queue_fam kv) \<noteq> []"
    and "\<forall>k \<in> set (kv_list (queue_fam kv)). kv_get (queue_fam kv) k \<noteq> None"
  shows "\<exists>job kv'. dequeue config now kv = (Some job, kv')"
proof -
  from assms(2) have "set (sort_by compareKeys (kv_list (queue_fam kv))) \<noteq> {}"
    by (simp add: set_sort_by)
  then obtain firstKey rest where
    sorted: "sort_by compareKeys (kv_list (queue_fam kv)) = firstKey # rest"
    by (cases "sort_by compareKeys (kv_list (queue_fam kv))") auto
  from sort_by_head[OF sorted] assms(3) obtain job where
    "kv_get (queue_fam kv) firstKey = Some job" by auto
  with sorted assms(1) show ?thesis by (simp add: dequeue_def Let_def)
qed

text \<open>
  C4. Whenever \<^verbatim>\<open>dequeue\<close> returns a job, it is the job stored under a pending queue key
  \<open>k\<close>, that key is the one removed, and every pending key has a lower priority than \<open>k\<close>,
  or the same priority and a time stamp that is not earlier: a job of higher priority is
  returned before one of lower priority whatever the order of submission, and within a
  priority the earlier enqueue time stamp goes first. With room under \<^verbatim>\<open>maxConcurrent\<close>
  and a non-empty queue of readable entries, \<^verbatim>\<open>dequeue\<close> does return a job.
\<close>

theorem dequeue_priority_fifo:
  "(dequeue config now kv = (Some job, kv') \<longrightarrow>
      (\<exists>k \<in> set (kv_list (queue_fam kv)).
           kv_get (queue_fam kv) k = Some job \<and>
           queue_fam kv' = kv_delete (queue_fam kv) k \<and>
           (\<forall>k' \<in> set (kv_list (queue_fam kv)).
              qk_priority k' < qk_priority k \<or>
              (qk_priority k' = qk_priority k \<and> qk_timestamp k \<le> qk_timestamp k')))) \<and>
   (getRunningJobCount kv < maxConcurrent config \<and> kv_list (queue_fam kv) \<noteq> [] \<and>
    (\<forall>k \<in> set (kv_list (queue_fam kv)). kv_get (queue_fam kv) k \<noteq> None) \<longrightarrow>
      (\<exists>job kv'. dequeue config now kv = (Some job, kv')))"
  using dequeue_selects[of config now kv job kv'] dequeue_progress[of kv config now]
  by blast

text \<open>A (5, t=0), B (8, t=1), C (5, t=2): successive calls return B, then A, then C.\<close>

theorem dequeue_priority_fifo_witness:
  "set (kv_list (queue_fam store_ABC))
     = {QueueKey 5 0 ''A'', QueueKey 8 1 ''B'', QueueKey 5 2 ''C''} \<and>
   dequeue default_config 10 store_ABC = (Some job_B, store_AC) \<and>
   dequeue default_config 11 store_AC = (Some job_A, store_C) \<and>
   fst (dequeue default_config 12 store_C) = Some job_C \<and>
   queue_fam store_AC = kv_delete (queue_fam store_ABC) (QueueKey 8 1 ''B'')"
proof -
  have keys: "kv_list (queue_fam store_ABC)
                = [QueueKey 5 0 ''A'', QueueKey 8 1 ''B'', QueueKey 5 2 ''C'']"
    by (simp add: example_defs queue_defs)
  have d1: "dequeue default_config 10 store_ABC = (Some job_B, store_AC)"
    by (simp add: example_defs queue_defs)
  have d2: "dequeue default_config 11 store_AC = (Some job_A, store_C)"
    by (simp add: example_defs queue_defs)
  have d3: "fst (dequeue default_config 12 store_C) = Some job_C"
    by (simp add: example_defs queue_defs)
  have got: "kv_get (queue_fam store_ABC) (QueueKey 5 0 ''A'') \<noteq> Some job_B"
            "kv_get (queue_fam store_ABC) (QueueKey 5 2 ''C'') \<noteq> Some job_B"
    by (simp_all add: example_defs queue_defs)
  from dequeue_priority_fifo[of default_config 10 store_ABC job_B store_AC] d1 keys got
  have "queue_fam store_AC = kv_delete (queue_fam store_ABC) (QueueKey 8 1 ''B'')"
    by auto
  moreover have "set (kv_list (queue_fam store_ABC))
     = {QueueKey 5 0 ''A'', QueueKey 8 1 ''B'', QueueKey 5 2 ''C''}"
    using keys by auto
  ultimately show ?thesis using d1 d2 d3 by simp
qed

text \<open>
  C10. With room under \<^verbatim>\<open>maxConcurrent\<close> and a non-empty queue, when the key the sort puts
  first reads as \<^verbatim>\<open>null\<close>, \<^verbatim>\<open>dequeue\<close> returns \<^verbatim>\<open>null\<close> and the store is unchanged: the
  entry is not deleted and no other entry is tried, whatever the other entries hold.
\<close>

theorem dequeue_missing_head:
  assumes "getRunningJobCount kv < maxConcurrent config"
    and "kv_list (queue_fam kv) \<noteq> []"
    and "kv_get (queue_fam kv) (hd (sort_by compareKeys (kv_list (queue_fam kv)))) = None"
  shows "dequeue config now kv = (None, kv)"
  using assms by (auto simp: dequeue_def Let_def split: list.splits)

text \<open>The unreadable entry X (priority 9) hides the readable entry A (priority 5).\<close>

theorem dequeue_missing_head_witness:
  "hd (sort_by compareKeys (kv_list (queue_fam store_expired_head))) = QueueKey 9 0 ''X'' \<and>
   kv_get (queue_fam store_expired_head) (QueueKey 9 0 ''X'') = None \<and>
   kv_get (queue_fam store_expired_head) (QueueKey 5 1 ''A'') = Some job_A \<and>
   dequeue default_config 7 store_expired_head = (None, store_expired_head)"
proof -
  have a: "getRunningJobCount store_expired_head < maxConcurrent default_config"
    and b: "kv_list (queue_fam store_expired_head) \<noteq> []"
    and c: "hd (sort_by compareKeys (kv_list (queue_fam store_expired_head))) = QueueKey 9 0 ''X''"
    and d: "kv_get (queue_fam store_expired_head) (QueueKey 9 0 ''X'') = None"
    and e: "kv_get (queue_fam store_expired_head) (QueueKey 5 1 ''A'') = Some job_A"
    by (simp_all add: example_defs queue_defs)
  from dequeue_missing_head[OF a b, of 7] c d
  have "dequeue default_config 7 store_expired_head = (None, store_expired_head)" by simp
  then show ?thesis using c d e by simp
qed

section \<open>Retention pruning\<close>

text \<open>The shape \<open>well_keyed\<close> is kept by the operations that write statuses.\<close>

lemma list_all_update:
  "list_all P al \<Longrightarrow> P (k, v) \<Longrightarrow> list_all P (AList.update k v al)"
  by (induction al) auto

lemma well_keyed_updateJobStatus:
  "well_keyed kv \<Longrightarrow> st_id s = k \<Longrightarrow> st_finishedAt s \<noteq> Some 0 \<Longrightarrow>
   well_keyed (updateJobStatus k s kv)"
  by (simp add: well_keyed_def updateJobStatus_def distinct_kv_put)
     (simp add: kv_put_def list_all_update)

lemma well_keyed_stored:
  "well_keyed kv \<Longrightarrow> getJobStatus k kv = Some s \<Longrightarrow> st_id s = k \<and> st_finishedAt s \<noteq> Some 0"
  by (auto simp: well_keyed_def getJobStatus_def list_all_iff dest!: kv_get_SomeD)

lemma well_keyed_queue_fam: "well_keyed (kv\<lparr>queue_fam := q\<rparr>) = well_keyed kv"
  by (simp add: well_keyed_def)

lemma well_keyed_empty: "well_keyed empty_store"
  by (simp add: well_keyed_def empty_store_def kv_list_def)

lemma well_keyed_enqueue: "well_keyed kv \<Longrightarrow> well_keyed (enqueue config now job kv)"
  by (simp add: enqueue_def Let_def well_keyed_updateJobStatus well_keyed_queue_fam)

lemma well_keyed_dequeue: "well_keyed kv \<Longrightarrow> well_keyed (snd (dequeue config now kv))"
  by (auto simp: dequeue_def Let_def well_keyed_queue_fam split: list.splits option.splits
           dest!: well_keyed_stored[rotated] intro!: well_keyed_updateJobStatus)

lemma well_keyed_cancelJob:
  "well_keyed kv \<Longrightarrow> now \<noteq> 0 \<Longrightarrow> well_keyed (snd (cancelJob now jobId kv))"
  by (auto simp: cancelJob_def Let_def well_keyed_queue_fam split: option.splits
           dest: well_keyed_stored intro!: well_keyed_updateJobStatus)

lemma well_keyed_retryJob:
  "well_keyed kv \<Longrightarrow> well_keyed (snd (retryJob config now jobId kv))"
  by (auto simp: retryJob_def well_keyed_enqueue split: option.splits)

text \<open>The loop deletes the ids carried by the qualifying records, from both families.\<close>

lemma prune_loop_eq:
  "prune_loop cutoff ss kv d =
     (d + int (length (filter (prunable cutoff) ss)),
      kv\<lparr>status_fam :=
           filter (\<lambda>(k, v). k \<notin> st_id ` {s \<in> set ss. prunable cutoff s}) (status_fam kv),
         job_fam :=
           filter (\<lambda>(k, v). k \<notin> st_id ` {s \<in> set ss. prunable cutoff s}) (job_fam kv)\<rparr>)"
proof (induction ss arbitrary: kv d)
  case Nil
  then show ?case by simp
next
  case (Cons s ss)
  show ?case
  proof (cases "prunable cutoff s")
    case True
    have "{x \<in> set (s # ss). prunable cutoff x} = insert s {x \<in> set ss. prunable cutoff x}"
      using True by auto
    then show ?thesis using True
      by (simp add: Cons.IH kv_delete_filter case_prod_unfold conj_commute)
  next
    case False
    have "{x \<in> set (s # ss). prunable cutoff x} = {x \<in> set ss. prunable cutoff x}"
      using False by auto
    then show ?thesis using False by (simp add: Cons.IH)
  qed
qed

lemma collect_jobs_set:
  "set (collect_jobs fam None keys) = {s. \<exists>k \<in> set keys. kv_get fam k = Some s}"
  by (induction keys) (auto split: option.splits)

lemma listJobs_set:
  "set (listJobs None kv) = {s. \<exists>k. kv_get (status_fam kv) k = Some s}"
  by (auto simp: listJobs_def collect_jobs_set dest: kv_get_Some_listed)

text \<open>
  C8. On a store of the shape \<open>well_keyed\<close>, \<^verbatim>\<open>pruneCompletedJobs(maxAge)\<close> returns the
  number of stored records whose status is success, failure or cancelled and whose
  \<^verbatim>\<open>finishedAt\<close> is older than \<^verbatim>\<open>maxAge\<close>; it removes exactly those records from the
  statuses, and the job configs retained under their ids; every other entry (a record that
  timed out, a record that is not terminal, a recent one) stays as it was, and so does the
  queue.
\<close>

theorem pruneCompletedJobs_exact:
  assumes "well_keyed kv"
  shows "pruneCompletedJobs now maxAge kv =
           (int (length (filter (expired_terminal now maxAge) (listJobs None kv))),
            kv\<lparr>status_fam := filter (\<lambda>(k, v). \<not> expired_entry now maxAge v) (status_fam kv),
               job_fam := filter (\<lambda>(k, v). \<not> expired_entry now maxAge (kv_get (status_fam kv) k))
                            (job_fam kv)\<rparr>)"
proof -
  let ?P = "prunable (now - maxAge)"
  let ?ids = "st_id ` {s \<in> set (listJobs None kv). ?P s}"
  from assms have dist: "distinct (kv_list (status_fam kv))"
    and keyed: "\<forall>(k, v) \<in> set (status_fam kv).
                  \<forall>s. v = Some s \<longrightarrow> st_id s = k \<and> st_finishedAt s \<noteq> Some 0"
    by (auto simp: well_keyed_def list_all_iff)
  have stored: "st_id s = k \<and> (?P s \<longleftrightarrow> expired_terminal now maxAge s)"
    if "kv_get (status_fam kv) k = Some s" for k s
  proof -
    from that have "(k, Some s) \<in> set (status_fam kv)" by (rule kv_get_SomeD)
    with keyed have "st_id s = k" and "st_finishedAt s \<noteq> Some 0" by auto
    then show ?thesis
      by (auto simp: prunable_def expired_terminal_def truthy_def split: option.splits)
  qed
  have ids: "k \<in> ?ids \<longleftrightarrow> expired_entry now maxAge (kv_get (status_fam kv) k)" for k
  proof
    assume "k \<in> ?ids"
    then obtain s k' where "kv_get (status_fam kv) k' = Some s" "?P s" "st_id s = k"
      by (auto simp: listJobs_set)
    with stored[of k' s] show "expired_entry now maxAge (kv_get (status_fam kv) k)"
      by (auto simp: expired_entry_def)
  next
    assume "expired_entry now maxAge (kv_get (status_fam kv) k)"
    then obtain s where s: "kv_get (status_fam kv) k = Some s" "expired_terminal now maxAge s"
      by (auto simp: expired_entry_def split: option.splits)
    with stored[of k s] have "s \<in> set (listJobs None kv)" "?P s" "st_id s = k"
      by (auto simp: listJobs_set)
    then show "k \<in> ?ids" by blast
  qed
  have count: "filter ?P (listJobs None kv)
                 = filter (expired_terminal now maxAge) (listJobs None kv)"
    by (rule filter_cong) (auto simp: listJobs_set dest: stored)
  have st: "filter (\<lambda>(k, v). k \<notin> ?ids) (status_fam kv)
              = filter (\<lambda>(k, v). \<not> expired_entry now maxAge v) (status_fam kv)"
  proof (rule filter_cong[OF refl])
    fix e assume "e \<in> set (status_fam kv)"
    then have "kv_get (status_fam kv) (fst e) = snd e"
      using kv_get_entry[of "status_fam kv" "fst e" "snd e"] dist by (simp add: kv_list_def)
    then show "(case e of (k, v) \<Rightarrow> k \<notin> ?ids)
                 = (case e of (k, v) \<Rightarrow> \<not> expired_entry now maxAge v)"
      using ids[of "fst e"] by (simp add: case_prod_unfold)
  qed
  have jb: "filter (\<lambda>(k, v). k \<notin> ?ids) (job_fam kv)
              = filter (\<lambda>(k, v). \<not> expired_entry now maxAge (kv_get (status_fam kv) k))
                  (job_fam kv)"
    by (rule filter_cong[OF refl]) (simp add: case_prod_unfold ids)
  show ?thesis
    unfolding pruneCompletedJobs_def Let_def prune_loop_eq by (simp only: count st jb) simp
qed

text \<open>
  At time 1000 with \<^verbatim>\<open>maxAge\<close> 500: the old success and the old failure go, with their job
  configs; the old timeout, the recent cancellation, the running and the queued job stay.
\<close>

theorem pruneCompletedJobs_exact_witness:
  "well_keyed store_history \<and>
   pruneCompletedJobs 1000 500 store_history =
     (2, store_history
           \<lparr>status_fam :=
              [(''old-timeout'', Some (example_status ''old-timeout'' Timeout (Some 90) (Some 100))),
               (''new-cancelled'', Some (example_status ''new-cancelled'' Cancelled None (Some 900))),
               (''active'', Some (example_status ''active'' Running (Some 940) None)),
               (''waiting'', Some (example_status ''waiting'' Queued None None))],
            job_fam :=
              [(''old-timeout'', Some (example_job ''old-timeout'' None [])),
               (''active'', Some (example_job ''active'' None []))]\<rparr>)"
proof -
  have wk: "well_keyed store_history"
    by (simp add: well_keyed_def kv_list_def history_defs)
  from pruneCompletedJobs_exact[OF wk, of 1000 500]
  show ?thesis using wk
    by (simp add: history_defs listJobs_def kv_list_def kv_get_def expired_entry_def
          expired_terminal_def)
qed

section \<open>Terminal statuses\<close>

text \<open>
  C2, as stated, fails: \<^verbatim>\<open>retryJob\<close> on a job that has finished with failure puts a
  queued record in the place of the failed one, and \<^verbatim>\<open>cancelJob\<close> on a job that has
  finished with success overwrites its status with cancelled.
\<close>

theorem terminal_status_counterexample:
  "getJobStatus ''A'' store_failed = Some status_failed \<and>
   st_status status_failed = Failure \<and> terminal (st_status status_failed) \<and>
   map_option st_status (getJobStatus ''A'' (snd (retryJob default_config 30 ''A'' store_failed)))
     = Some Queued \<and>
   getJobStatus ''A'' store_done = Some status_done \<and>
   st_status status_done = Success \<and> terminal (st_status status_done) \<and>
   map_option st_status (getJobStatus ''A'' (snd (cancelJob 30 ''A'' store_done))) = Some Cancelled"
  by (simp add: store_done_def status_done_def store_failed_def status_failed_def
        example_status_def terminal_def cancelJob_def retryJob_def enqueue_def job_A_def
        example_job_def default_config_def getJobStatus_def updateJobStatus_def kv_get_def
        kv_put_def Let_def truthy_def)

text \<open>
  C2, amended. For a job whose stored status is terminal: \<^verbatim>\<open>cancelJob\<close> returns true, leaves
  the queue entries and the job configs alone, and replaces the record by the same record
  with status cancelled, \<^verbatim>\<open>finishedAt\<close> stamped anew and \<^verbatim>\<open>duration\<close> recomputed when
  \<^verbatim>\<open>startedAt\<close> is set: nothing else in the store changes. \<^verbatim>\<open>retryJob\<close> returns false and
  changes nothing unless the status is failure and the job config is retained. In that
  case it returns true and re-enqueues the retained config: it writes the config under the
  queue key made of the config's priority (the default one when it has none), the current
  time and the config's id, and it puts under the config's id a fresh record, with status
  queued, one pending result per step and no other field set; the queue key is then
  listed and reads as the config, the status reads as the fresh record, and the retained
  configs and every other entry are as before.
\<close>

theorem cancel_retry_on_terminal:
  assumes "getJobStatus jobId kv = Some status" and "terminal (st_status status)"
  shows "fst (cancelJob now jobId kv) = True \<and>
         queue_fam (snd (cancelJob now jobId kv)) = queue_fam kv \<and>
         job_fam (snd (cancelJob now jobId kv)) = job_fam kv \<and>
         getJobStatus jobId (snd (cancelJob now jobId kv))
           = Some (status\<lparr>st_status := Cancelled, st_finishedAt := Some now,
                          st_duration := (if truthy (st_startedAt status)
                                          then Some (now - the (st_startedAt status))
                                          else st_duration status)\<rparr>) \<and>
         snd (cancelJob now jobId kv)
           = kv\<lparr>status_fam :=
                  kv_put (status_fam kv) jobId
                    (status\<lparr>st_status := Cancelled, st_finishedAt := Some now,
                            st_duration := (if truthy (st_startedAt status)
                                            then Some (now - the (st_startedAt status))
                                            else st_duration status)\<rparr>)\<rparr> \<and>
         (st_status status \<noteq> Failure \<or> kv_get (job_fam kv) jobId = None
            \<longrightarrow> retryJob config now jobId kv = (False, kv)) \<and>
         (\<forall>jobData. st_status status = Failure \<and> kv_get (job_fam kv) jobId = Some jobData
            \<longrightarrow> (let queueKey = QueueKey (case job_priority jobData of
                                            Some p \<Rightarrow> p
                                          | None \<Rightarrow> defaultPriority config)
                                         now (job_id jobData);
                     queued = \<lparr>st_id = job_id jobData, st_status = Queued, st_currentStep = None,
                               st_startedAt = None, st_finishedAt = None, st_duration = None,
                               st_steps = map pending_result (job_steps jobData),
                               st_sandboxId = None, st_error = None\<rparr>;
                     kv' = snd (retryJob config now jobId kv)
                 in fst (retryJob config now jobId kv) = True \<and>
                    kv' = kv\<lparr>queue_fam := kv_put (queue_fam kv) queueKey jobData,
                             status_fam := kv_put (status_fam kv) (job_id jobData) queued\<rparr> \<and>
                    queueKey \<in> set (kv_list (queue_fam kv')) \<and>
                    kv_get (queue_fam kv') queueKey = Some jobData \<and>
                    getJobStatus (job_id jobData) kv' = Some queued \<and>
                    job_fam kv' = job_fam kv))"
proof -
  let ?cancelled = "status\<lparr>st_status := Cancelled, st_finishedAt := Some now,
                          st_duration := (if truthy (st_startedAt status)
                                          then Some (now - the (st_startedAt status))
                                          else st_duration status)\<rparr>"
  from assms(2) have nq: "st_status status \<noteq> Queued" by (auto simp: terminal_def)
  have cancel: "cancelJob now jobId kv
                  = (True, kv\<lparr>status_fam := kv_put (status_fam kv) jobId ?cancelled\<rparr>)"
    using assms(1) nq by (simp add: cancelJob_def Let_def updateJobStatus_def)
  have retry_no: "retryJob config now jobId kv = (False, kv)"
    if "st_status status \<noteq> Failure \<or> kv_get (job_fam kv) jobId = None"
    using that assms(1) by (auto simp: retryJob_def)
  have retry_yes:
    "retryJob config now jobId kv
       = (True,
          kv\<lparr>queue_fam :=
                kv_put (queue_fam kv)
                  (QueueKey (case job_priority jobData of
                               Some p \<Rightarrow> p
                             | None \<Rightarrow> defaultPriority config) now (job_id jobData))
                  jobData,
             status_fam :=
                kv_put (status_fam kv) (job_id jobData)
                  \<lparr>st_id = job_id jobData, st_status = Queued, st_currentStep = None,
                   st_startedAt = None, st_finishedAt = None, st_duration = None,
                   st_steps = map pending_result (job_steps jobData),
                   st_sandboxId = None, st_error = None\<rparr>\<rparr>)"
    if "st_status status = Failure \<and> kv_get (job_fam kv) jobId = Some jobData" for jobData
    using that assms(1)
    by (simp add: retryJob_def enqueue_def Let_def updateJobStatus_def)
  have cancel_part:
    "fst (cancelJob now jobId kv) = True \<and>
     queue_fam (snd (cancelJob now jobId kv)) = queue_fam kv \<and>
     job_fam (snd (cancelJob now jobId kv)) = job_fam kv \<and>
     getJobStatus jobId (snd (cancelJob now jobId kv)) = Some ?cancelled \<and>
     snd (cancelJob now jobId kv) = kv\<lparr>status_fam := kv_put (status_fam kv) jobId ?cancelled\<rparr>"
    by (simp add: cancel getJobStatus_def kv_get_put)
  have retry_part:
    "let queueKey = QueueKey (case job_priority jobData of
                                Some p \<Rightarrow> p
                              | None \<Rightarrow> defaultPriority config)
                             now (job_id jobData);
         queued = \<lparr>st_id = job_id jobData, st_status = Queued, st_currentStep = None,
                   st_startedAt = None, st_finishedAt = None, st_duration = None,
                   st_steps = map pending_result (job_steps jobData),
                   st_sandboxId = None, st_error = None\<rparr>;
         kv' = snd (retryJob config now jobId kv)
     in fst (retryJob config now jobId kv) = True \<and>
        kv' = kv\<lparr>queue_fam := kv_put (queue_fam kv) queueKey jobData,
                 status_fam := kv_put (status_fam kv) (job_id jobData) queued\<rparr> \<and>
        queueKey \<in> set (kv_list (queue_fam kv')) \<and>
        kv_get (queue_fam kv') queueKey = Some jobData \<and>
        getJobStatus (job_id jobData) kv' = Some queued \<and>
        job_fam kv' = job_fam kv"
    if "st_status status = Failure \<and> kv_get (job_fam kv) jobId = Some jobData" for jobData
    by (simp add: retry_yes[OF that] Let_def getJobStatus_def kv_get_put kv_put_listed)
  show ?thesis
    using cancel_part retry_no retry_part by blast
qed

text \<open>
  A finished success is not retried but is cancelled; a finished failure is queued again,
  under the key of priority 5, time 30 and id A, with a fresh record.
\<close>

theorem cancel_retry_on_terminal_witness:
  "getJobStatus ''A'' store_done = Some status_done \<and> terminal (st_status status_done) \<and>
   retryJob default_config 30 ''A'' store_done = (False, store_done) \<and>
   cancelJob 30 ''A'' store_done
     = (True,
        store_done\<lparr>status_fam :=
                     [(''A'', Some (status_done\<lparr>st_status := Cancelled, st_finishedAt := Some 30,
                                                st_duration := Some 20\<rparr>))]\<rparr>) \<and>
   getJobStatus ''A'' store_failed = Some status_failed \<and> terminal (st_status status_failed) \<and>
   kv_get (job_fam store_failed) ''A'' = Some job_A \<and>
   retryJob default_config 30 ''A'' store_failed
     = (True,
        store_failed\<lparr>queue_fam := [(QueueKey 5 30 ''A'', Some job_A)],
                      status_fam := [(''A'', Some (example_status ''A'' Queued None None))]\<rparr>) \<and>
   kv_get (queue_fam (snd (retryJob default_config 30 ''A'' store_failed))) (QueueKey 5 30 ''A'')
     = Some job_A \<and>
   getJobStatus ''A'' (snd (retryJob default_config 30 ''A'' store_failed))
     = Some (example_status ''A'' Queued None None)"
proof -
  have a: "getJobStatus ''A'' store_done = Some status_done"
    and b: "terminal (st_status status_done)" "st_status status_done \<noteq> Failure"
    and c: "getJobStatus ''A'' store_failed = Some status_failed"
    and d: "terminal (st_status status_failed)" "st_status status_failed = Failure"
    and e: "kv_get (job_fam store_failed) ''A'' = Some job_A"
    by (simp_all add: store_done_def status_done_def store_failed_def status_failed_def
          example_status_def terminal_def getJobStatus_def kv_get_def)
  have vals: "truthy (st_startedAt status_done)" "the (st_startedAt status_done) = 10"
    "kv_put (status_fam store_done) ''A'' v = [(''A'', Some v)]"
    "kv_put (queue_fam store_failed) k j = [(k, Some j)]"
    "kv_put (status_fam store_failed) ''A'' v = [(''A'', Some v)]"
    "job_priority job_A = Some 5" "job_id job_A = ''A''" "job_steps job_A = []" for v k j
    by (simp_all add: store_done_def status_done_def store_failed_def example_status_def
          truthy_def kv_put_def job_A_def example_job_def)
  from cancel_retry_on_terminal[OF a b(1), of 30 default_config] b(2)
  have "retryJob default_config 30 ''A'' store_done = (False, store_done)"
    and "cancelJob 30 ''A'' store_done
     = (True,
        store_done\<lparr>status_fam :=
                     [(''A'', Some (status_done\<lparr>st_status := Cancelled, st_finishedAt := Some 30,
                                                st_duration := Some 20\<rparr>))]\<rparr>)"
    by (simp_all add: vals prod_eq_iff)
  moreover from cancel_retry_on_terminal[OF c d(1), of 30 default_config] d(2) e
  have "retryJob default_config 30 ''A'' store_failed
     = (True,
        store_failed\<lparr>queue_fam := [(QueueKey 5 30 ''A'', Some job_A)],
                      status_fam := [(''A'', Some (example_status ''A'' Queued None None))]\<rparr>)"
    and "kv_get (queue_fam (snd (retryJob default_config 30 ''A'' store_failed)))
           (QueueKey 5 30 ''A'') = Some job_A"
    and "getJobStatus ''A'' (snd (retryJob default_config 30 ''A'' store_failed))
           = Some (example_status ''A'' Queued None None)"
    by (simp_all add: vals Let_def prod_eq_iff example_status_def kv_get_def getJobStatus_def)
  ultimately show ?thesis using a b c d e by simp
qed

section \<open>Cache keys and cache restore\<close>

text \<open>
  C9. When the cache bucket holds no bundle under the key's archive path,
  \<^verbatim>\<open>restoreCache\<close> resolves with false and the world is the one it started from: nothing
  is written to the sandbox, the cache metadata or the bucket.
\<close>

theorem restoreCache_miss:
  assumes "r2_get (w_cache_r2 w) (archive_key cacheKey) = None"
  shows "restoreCache env cacheKey w = (Inr False, w)"
  using assms by (simp add: restoreCache_def)

theorem restoreCache_miss_witness:
  "r2_get (w_cache_r2 world_other_bundle) (archive_key ''repo-main'') = None \<and>
   restoreCache (example_env exit_codes never id) ''repo-main'' world_other_bundle
     = (Inr False, world_other_bundle)"
proof -
  have miss: "r2_get (w_cache_r2 world_other_bundle) (archive_key ''repo-main'') = None"
    by (simp add: world_other_bundle_def example_world_def r2_get_def archive_key_def)
  from restoreCache_miss[OF miss] miss show ?thesis by simp
qed



section \<open>Running a job\<close>

text \<open>One iteration of the step loop, when the store takes the status.\<close>

lemma step_loop_iteration:
  assumes "kv_rejects env (w_kv_calls w) = None"
    and "executeStep env step job
           (w\<lparr>w_kv := updateJobStatus (job_id job) (status\<lparr>st_currentStep := Some i\<rparr>) (w_kv w),
              w_kv_calls := Suc (w_kv_calls w)\<rparr>) = (r, w2)"
  shows "step_loop env job i (step # steps) status w =
           (if res_status r = StepFailure \<and> step_continueOnError step \<noteq> Some True
            then (None,
                  status\<lparr>st_currentStep := Some i, st_steps := set_index (st_steps status) i r,
                         st_status := Failure, st_error := Some (step_failed_message step)\<rparr>, w2)
            else step_loop env job (Suc i) steps
                   (status\<lparr>st_currentStep := Some i, st_steps := set_index (st_steps status) i r\<rparr>)
                   w2)"
  using assms by (simp add: queue_updateJobStatus_def Let_def)

text \<open>What the \<^verbatim>\<open>try\<close> block reports when the setup or the loop's write of the status rejects.\<close>

lemma try_block_setup_throws:
  "setupWorkspace env job w0 = (Inl e, w1) \<Longrightarrow>
   try_block env job status w0 = (Some e, status, w1)"
  by (simp add: try_block_def)

lemma step_loop_persist_throws:
  "kv_rejects env (w_kv_calls w) = Some e \<Longrightarrow>
   step_loop env job i (step # steps) status w
     = (Some e, status\<lparr>st_currentStep := Some i\<rparr>, w\<lparr>w_kv_calls := Suc (w_kv_calls w)\<rparr>)"
  by (simp add: queue_updateJobStatus_def)

text \<open>The \<^verbatim>\<open>catch\<close> and \<^verbatim>\<open>finally\<close> blocks, when the last write of the status is taken.\<close>

lemma finish_ok:
  assumes "queue_getJobStatus env (job_id job) w = (Inr (Some status), w0)"
    and "try_block env job status w0 = (thrown, status1, w1)"
    and "kv_rejects env (w_kv_calls w1) = None"
  shows "\<exists>final w'. executeJob env job w = (Inr final, w') \<and>
           getJobStatus (job_id job) (w_kv w') = Some final \<and>
           st_status final = (if thrown = None then st_status status1 else Failure) \<and>
           st_error final = (case thrown of None \<Rightarrow> st_error status1 | Some e \<Rightarrow> Some e) \<and>
           st_steps final = st_steps status1 \<and>
           st_currentStep final = st_currentStep status1 \<and>
           st_finishedAt final = Some (clock env (w_tick w1))"
  using assms
  by (cases thrown)
     (simp_all add: executeJob_def Let_def Date_now_def queue_updateJobStatus_def
        getJobStatus_def updateJobStatus_def kv_get_put)

lemma example_setup_ok:
  "fst (setupWorkspace (example_env exit_codes rejects hash) (example_job jobId priority steps) w)
     = Inr ()"
  by (simp add: setupWorkspace_def await_def resolve_def exec_def example_env_def example_job_def)

lemma example_step_status:
  "res_status (fst (executeStep (example_env exit_codes rejects hash)
                      (example_step name command continue) job w))
     = (if command = ''false'' then StepFailure else StepSuccess)"
  by (simp add: executeStep_def step_body_def await_def resolve_def Date_now_def truthy_def
        example_env_def example_step_def exit_codes_def Let_def)

text \<open>
  C5. Let the job's steps be A, B, C, the status record exist with its slots as
  \<^verbatim>\<open>enqueue\<close> fills them, the store take every write and the workspace setup succeed. If
  A ends with success and B ends with failure without \<^verbatim>\<open>continueOnError\<close>, then
  \<^verbatim>\<open>executeJob\<close> returns a status, which it has persisted: the job's status is failure, the
  error names B, the results are success for A, failure for B and, for C, the pending slot
  written at enqueue time; the last iteration begun is B's (index 1).
\<close>

theorem executeJob_stops_at_hard_failure:
  assumes steps: "job_steps job = [A, B, C]"
    and entry: "getJobStatus (job_id job) (w_kv w) = Some status"
    and prepopulated: "st_steps status = map pending_result (job_steps job)"
    and store_ok: "\<forall>n. kv_rejects env n = None"
    and setup_ok: "\<forall>w. fst (setupWorkspace env job w) = Inr ()"
    and A_ok: "\<forall>w. res_status (fst (executeStep env A job w)) = StepSuccess"
    and B_fails: "\<forall>w. res_status (fst (executeStep env B job w)) = StepFailure"
    and B_hard: "step_continueOnError B \<noteq> Some True"
  shows "\<exists>final w'. executeJob env job w = (Inr final, w') \<and>
           st_status final = Failure \<and>
           st_error final = Some (step_failed_message B) \<and>
           map res_status (st_steps final) = [StepSuccess, StepFailure, Pending] \<and>
           st_steps final ! 2 = pending_result C \<and>
           st_currentStep final = Some 1 \<and>
           getJobStatus (job_id job) (w_kv w') = Some final"
proof -
  obtain w0 where get: "queue_getJobStatus env (job_id job) w = (Inr (Some status), w0)"
    using entry store_ok by (simp add: queue_getJobStatus_def)
  obtain w1 where set_up: "setupWorkspace env job w0 = (Inr (), w1)"
    using setup_ok by (metis prod.collapse)
  obtain hit w2 where restore: "Orchestrator_restoreCache env job w1 = (hit, w2)"
    by (cases "Orchestrator_restoreCache env job w1")
  let ?s0 = "status\<lparr>st_currentStep := Some 0\<rparr>"
  obtain rA w3 where runA: "executeStep env A job
       (w2\<lparr>w_kv := updateJobStatus (job_id job) ?s0 (w_kv w2),
           w_kv_calls := Suc (w_kv_calls w2)\<rparr>) = (rA, w3)"
    by (cases "executeStep env A job
       (w2\<lparr>w_kv := updateJobStatus (job_id job) ?s0 (w_kv w2),
           w_kv_calls := Suc (w_kv_calls w2)\<rparr>)")
  have okA: "res_status rA = StepSuccess" using A_ok runA by (metis fst_conv)
  let ?sA = "status\<lparr>st_currentStep := Some 0, st_steps := set_index (st_steps status) 0 rA\<rparr>"
  let ?s1 = "?sA\<lparr>st_currentStep := Some (Suc 0)\<rparr>"
  obtain rB w4 where runB: "executeStep env B job
       (w3\<lparr>w_kv := updateJobStatus (job_id job) ?s1 (w_kv w3),
           w_kv_calls := Suc (w_kv_calls w3)\<rparr>) = (rB, w4)"
    by (cases "executeStep env B job
       (w3\<lparr>w_kv := updateJobStatus (job_id job) ?s1 (w_kv w3),
           w_kv_calls := Suc (w_kv_calls w3)\<rparr>)")
  have koB: "res_status rB = StepFailure" using B_fails runB by (metis fst_conv)
  let ?sB = "?sA\<lparr>st_currentStep := Some (Suc 0), st_steps := set_index (st_steps ?sA) (Suc 0) rB,
                   st_status := Failure, st_error := Some (step_failed_message B)\<rparr>"
  have loop: "step_loop env job 0 [A, B, C] status w2 = (None, ?sB, w4)"
    using step_loop_iteration[where env=env and w=w2 and step=A and job=job and status=status
                                and i=0 and r=rA and ?w2.0=w3 and steps="[B, C]"]
          step_loop_iteration[where env=env and w=w3 and step=B and job=job and status="?sA"
                                and i="Suc 0" and r=rB and ?w2.0=w4 and steps="[C]"]
          store_ok runA runB okA koB B_hard
    by simp
  have slots: "st_steps ?sB = [rA, rB, pending_result C]"
    using prepopulated steps by (simp add: set_index_def)
  have block: "try_block env job status w0 = (None, ?sB, w4)"
    using set_up restore loop steps slots okA koB
    by (simp add: try_block_def)
  from finish_ok[OF get block] store_ok obtain final w' where
    fin: "executeJob env job w = (Inr final, w')"
      "getJobStatus (job_id job) (w_kv w') = Some final"
      "st_status final = Failure" "st_error final = Some (step_failed_message B)"
      "st_steps final = st_steps ?sB" "st_currentStep final = st_currentStep ?sB"
    by auto
  show ?thesis
    using fin slots okA koB by (auto simp: pending_result_def)
qed

text \<open>A (\<^verbatim>\<open>true\<close>), B (\<^verbatim>\<open>false\<close>), C (\<^verbatim>\<open>true\<close>) on a job that was enqueued and dequeued.\<close>

theorem executeJob_stops_at_hard_failure_witness:
  "getJobStatus ''stop'' (dispatched job_stop)
     = Some \<lparr>st_id = ''stop'', st_status = Running, st_currentStep = None, st_startedAt = Some 1,
             st_finishedAt = None, st_duration = None,
             st_steps = map pending_result (job_steps job_stop), st_sandboxId = None,
             st_error = None\<rparr> \<and>
   (\<exists>final w'.
      executeJob (example_env exit_codes never id) job_stop (example_world (dispatched job_stop) [])
        = (Inr final, w') \<and>
      st_status final = Failure \<and>
      st_error final = Some (''Step '' @ [CHR 0x22] @ ''B'' @ [CHR 0x22] @ '' failed'') \<and>
      map res_status (st_steps final) = [StepSuccess, StepFailure, Pending] \<and>
      getJobStatus ''stop'' (w_kv w') = Some final)"
proof -
  let ?status = "\<lparr>st_id = ''stop'', st_status = Running, st_currentStep = None,
             st_startedAt = Some 1, st_finishedAt = None, st_duration = None,
             st_steps = map pending_result (job_steps job_stop), st_sandboxId = None,
             st_error = None\<rparr>"
  let ?env = "example_env exit_codes never id"
  have entry: "getJobStatus (job_id job_stop) (w_kv (example_world (dispatched job_stop) []))
                 = Some ?status"
    by (simp add: orch_example_defs example_defs queue_defs)
  have steps: "job_steps job_stop = [example_step ''A'' ''true'' None,
      example_step ''B'' ''false'' (Some False), example_step ''C'' ''true'' None]"
    by (simp add: job_stop_def example_job_def)
  have pre: "st_steps ?status = map pending_result (job_steps job_stop)" by simp
  have store_ok: "\<forall>n. kv_rejects ?env n = None"
    by (simp add: example_env_def never_def)
  have setup_ok: "\<forall>w. fst (setupWorkspace ?env job_stop w) = Inr ()"
    by (simp add: job_stop_def example_setup_ok)
  have A_ok: "\<forall>w. res_status (fst (executeStep ?env
                      (example_step ''A'' ''true'' None) job_stop w)) = StepSuccess"
    by (simp add: example_step_status)
  have B_fails: "\<forall>w. res_status (fst (executeStep ?env
                      (example_step ''B'' ''false'' (Some False)) job_stop w)) = StepFailure"
    by (simp add: example_step_status)
  have B_hard: "step_continueOnError (example_step ''B'' ''false'' (Some False)) \<noteq> Some True"
    by (simp add: example_step_def)
  have id: "job_id job_stop = ''stop''" by (simp add: job_stop_def example_job_def)
  from executeJob_stops_at_hard_failure[OF steps entry pre store_ok setup_ok A_ok B_fails B_hard]
  show ?thesis using entry
    by (auto simp: id step_failed_message_def example_step_def example_world_def)
qed

text \<open>
  C1. The claim is that with steps A (\<^verbatim>\<open>continueOnError\<close>, ending with failure) and B
  (ending with success) both steps run and the final status is failure. The code runs
  both steps, but it sets the status to failure only where it stops the loop or catches an
  exception, and to success only when every result is success or skipped: here neither
  happens. For a job dispatched by \<^verbatim>\<open>dequeue\<close> (status running), the store taking every
  write and the setup succeeding, \<^verbatim>\<open>executeJob\<close> persists and returns the status it
  found, running, with \<^verbatim>\<open>finishedAt\<close> stamped and no error.
\<close>

theorem executeJob_continue_keeps_running:
  assumes steps: "job_steps job = [A, B]"
    and entry: "getJobStatus (job_id job) (w_kv w) = Some status"
    and running: "st_status status = Running"
    and prepopulated: "st_steps status = map pending_result (job_steps job)"
    and store_ok: "\<forall>n. kv_rejects env n = None"
    and setup_ok: "\<forall>w. fst (setupWorkspace env job w) = Inr ()"
    and A_fails: "\<forall>w. res_status (fst (executeStep env A job w)) = StepFailure"
    and A_continue: "step_continueOnError A = Some True"
    and B_ok: "\<forall>w. res_status (fst (executeStep env B job w)) = StepSuccess"
  shows "\<exists>final w'. executeJob env job w = (Inr final, w') \<and>
           map res_status (st_steps final) = [StepFailure, StepSuccess] \<and>
           st_currentStep final = Some 1 \<and>
           st_status final = Running \<and>
           st_error final = st_error status \<and>
           getJobStatus (job_id job) (w_kv w') = Some final"
proof -
  obtain w0 where get: "queue_getJobStatus env (job_id job) w = (Inr (Some status), w0)"
    using entry store_ok by (simp add: queue_getJobStatus_def)
  obtain w1 where set_up: "setupWorkspace env job w0 = (Inr (), w1)"
    using setup_ok by (metis prod.collapse)
  obtain hit w2 where restore: "Orchestrator_restoreCache env job w1 = (hit, w2)"
    by (cases "Orchestrator_restoreCache env job w1")
  let ?s0 = "status\<lparr>st_currentStep := Some 0\<rparr>"
  obtain rA w3 where runA: "executeStep env A job
       (w2\<lparr>w_kv := updateJobStatus (job_id job) ?s0 (w_kv w2),
           w_kv_calls := Suc (w_kv_calls w2)\<rparr>) = (rA, w3)"
    by (cases "executeStep env A job
       (w2\<lparr>w_kv := updateJobStatus (job_id job) ?s0 (w_kv w2),
           w_kv_calls := Suc (w_kv_calls w2)\<rparr>)")
  have koA: "res_status rA = StepFailure" using A_fails runA by (metis fst_conv)
  let ?sA = "status\<lparr>st_currentStep := Some 0, st_steps := set_index (st_steps status) 0 rA\<rparr>"
  let ?s1 = "?sA\<lparr>st_currentStep := Some (Suc 0)\<rparr>"
  obtain rB w4 where runB: "executeStep env B job
       (w3\<lparr>w_kv := updateJobStatus (job_id job) ?s1 (w_kv w3),
           w_kv_calls := Suc (w_kv_calls w3)\<rparr>) = (rB, w4)"
    by (cases "executeStep env B job
       (w3\<lparr>w_kv := updateJobStatus (job_id job) ?s1 (w_kv w3),
           w_kv_calls := Suc (w_kv_calls w3)\<rparr>)")
  have okB: "res_status rB = StepSuccess" using B_ok runB by (metis fst_conv)
  let ?sB = "?sA\<lparr>st_currentStep := Some (Suc 0),
                   st_steps := set_index (st_steps ?sA) (Suc 0) rB\<rparr>"
  have loop: "step_loop env job 0 [A, B] status w2 = (None, ?sB, w4)"
    using step_loop_iteration[where env=env and w=w2 and step=A and job=job and status=status
                                and i=0 and r=rA and ?w2.0=w3 and steps="[B]"]
          step_loop_iteration[where env=env and w=w3 and step=B and job=job and status="?sA"
                                and i="Suc 0" and r=rB and ?w2.0=w4 and steps="[]"]
          store_ok runA runB koA okB A_continue
    by simp
  have slots: "st_steps ?sB = [rA, rB]"
    using prepopulated steps by (simp add: set_index_def)
  have block: "try_block env job status w0 = (None, ?sB, w4)"
    using set_up restore loop steps slots koA okB running
    by (simp add: try_block_def)
  from finish_ok[OF get block] store_ok obtain final w' where
    fin: "executeJob env job w = (Inr final, w')"
      "getJobStatus (job_id job) (w_kv w') = Some final"
      "st_status final = st_status ?sB" "st_error final = st_error ?sB"
      "st_steps final = st_steps ?sB" "st_currentStep final = st_currentStep ?sB"
    by auto
  show ?thesis
    using fin slots koA okB running by auto
qed

text \<open>
  The failing input: A (\<^verbatim>\<open>false\<close>, \<^verbatim>\<open>continueOnError\<close>), B (\<^verbatim>\<open>true\<close>), enqueued and
  dequeued.
\<close>

theorem executeJob_continue_keeps_running_witness:
  "map_option st_status (getJobStatus ''continue'' (dispatched job_continue)) = Some Running \<and>
   (\<exists>final w'.
      executeJob (example_env exit_codes never id) job_continue
          (example_world (dispatched job_continue) [])
        = (Inr final, w') \<and>
      map res_status (st_steps final) = [StepFailure, StepSuccess] \<and>
      st_status final = Running \<and> st_error final = None \<and> st_finishedAt final = Some 1004 \<and>
      getJobStatus ''continue'' (w_kv w') = Some final)"
proof -
  let ?status = "\<lparr>st_id = ''continue'', st_status = Running, st_currentStep = None,
             st_startedAt = Some 1, st_finishedAt = None, st_duration = None,
             st_steps = map pending_result (job_steps job_continue), st_sandboxId = None,
             st_error = None\<rparr>"
  let ?env = "example_env exit_codes never id"
  let ?start = "example_world (dispatched job_continue) []"
  have entry: "getJobStatus (job_id job_continue) (w_kv ?start) = Some ?status"
    by (simp add: orch_example_defs example_defs queue_defs)
  have steps: "job_steps job_continue
                 = [example_step ''A'' ''false'' (Some True), example_step ''B'' ''true'' None]"
    by (simp add: job_continue_def example_job_def)
  have pre: "st_steps ?status = map pending_result (job_steps job_continue)" by simp
  have running: "st_status ?status = Running" by simp
  have store_ok: "\<forall>n. kv_rejects ?env n = None"
    by (simp add: example_env_def never_def)
  have setup_ok: "\<forall>w. fst (setupWorkspace ?env job_continue w) = Inr ()"
    by (simp add: job_continue_def example_setup_ok)
  have A_fails: "\<forall>w. res_status (fst (executeStep ?env
                      (example_step ''A'' ''false'' (Some True)) job_continue w)) = StepFailure"
    by (simp add: example_step_status)
  have A_continue: "step_continueOnError (example_step ''A'' ''false'' (Some True)) = Some True"
    by (simp add: example_step_def)
  have B_ok: "\<forall>w. res_status (fst (executeStep ?env
                      (example_step ''B'' ''true'' None) job_continue w)) = StepSuccess"
    by (simp add: example_step_status)
  have id: "job_id job_continue = ''continue''" by (simp add: job_continue_def example_job_def)
  have stamp: "st_finishedAt (projr (fst (executeJob ?env job_continue ?start))) = Some 1004"
    by (simp add: orch_example_defs example_defs queue_defs orch_defs)
  from executeJob_continue_keeps_running
         [OF steps entry running pre store_ok setup_ok A_fails A_continue B_ok]
  show ?thesis using entry stamp
    by (auto simp: id example_world_def)
qed

text \<open>
  No call of the sandbox, of the clock or of the cache touches the queue: the workspace
  setup, the cache restore and a step leave the count of queue calls as it is.
\<close>

lemma exec_calls: "w_kv_calls (snd (exec env command dir w)) = w_kv_calls w"
  by (simp add: exec_def split: prod.split)

lemma await_calls:
  assumes "\<And>w. w_kv_calls (snd (m w)) = w_kv_calls w"
    and "\<And>x w. w_kv_calls (snd (f x w)) = w_kv_calls w"
  shows "w_kv_calls (snd (await m f w)) = w_kv_calls w"
proof (cases "m w")
  case (Pair r w')
  with assms(1)[of w] have "w_kv_calls w' = w_kv_calls w" by simp
  with Pair assms(2) show ?thesis by (cases r) (simp_all add: await_def)
qed

lemma export_env_calls: "w_kv_calls (snd (export_env env entries w)) = w_kv_calls w"
proof (induction entries arbitrary: w)
  case Nil show ?case by simp
next
  case (Cons entry entries)
  obtain key val where "entry = (key, val)" by (cases entry)
  then show ?case using Cons by (simp add: await_calls exec_calls)
qed

lemma setupWorkspace_calls: "w_kv_calls (snd (setupWorkspace env job w)) = w_kv_calls w"
  unfolding setupWorkspace_def
  by (intro await_calls exec_calls) (simp add: export_env_calls resolve_def split: option.split)

lemma restoreCache_calls: "w_kv_calls (snd (restoreCache env cacheKey w)) = w_kv_calls w"
proof (cases "r2_get (w_cache_r2 w) (archive_key cacheKey)")
  case None then show ?thesis by (simp add: restoreCache_def)
next
  case (Some object)
  have wf: "w_kv_calls (snd (writeFile env p c w)) = w_kv_calls w" for p c w
    by (simp add: writeFile_def split: prod.split)
  have last: "w_kv_calls (snd (case kv_get (w_cache_kv w1) cacheKey of
                         Some metadata \<Rightarrow>
                           (let (now, w2) = Date_now env w1
                            in (Inr True,
                                w2\<lparr>w_cache_kv :=
                                     kv_put (w_cache_kv w2) cacheKey (metadata\<lparr>ck_lastUsed := now\<rparr>)\<rparr>))
                       | None \<Rightarrow> (Inr True, w1))) = w_kv_calls w1" for w1 :: "'a world"
    by (simp add: Date_now_def split: option.split)
  show ?thesis
    using Some unfolding restoreCache_def
    by (simp add: Let_def) (intro await_calls wf exec_calls last)
qed

lemma Orchestrator_restoreCache_calls:
  "w_kv_calls (snd (Orchestrator_restoreCache env job w)) = w_kv_calls w"
  using restoreCache_calls[of env _ w]
  by (auto simp: Orchestrator_restoreCache_def Let_def split: option.split prod.split sum.split)
     (metis snd_conv)+

lemma step_body_calls: "w_kv_calls (snd (step_body env step w)) = w_kv_calls w"
  unfolding step_body_def Let_def
  by (intro await_calls)
     (simp_all add: export_env_calls resolve_def split: option.split prod.split race_outcome.split)

lemma executeStep_calls: "w_kv_calls (snd (executeStep env step job w)) = w_kv_calls w"
proof -
  obtain r w2 where body: "step_body env step (w\<lparr>w_tick := Suc (w_tick w)\<rparr>) = (r, w2)"
    by (cases "step_body env step (w\<lparr>w_tick := Suc (w_tick w)\<rparr>)")
  with step_body_calls[of env step "w\<lparr>w_tick := Suc (w_tick w)\<rparr>"]
  have "w_kv_calls w2 = w_kv_calls w" by simp
  with body show ?thesis
    by (simp add: executeStep_def Let_def Date_now_def)
qed

text \<open>
  The first write of the status that the store rejects, in the step loop: either the loop
  gets to it and the rejection leaves the loop as an exception, or a step before it has
  stopped the loop as a failure. Conversely an exception leaves the loop only from a
  rejected write.
\<close>

lemma set_index_mem: "r \<in> set (set_index xs i r)"
  by (simp add: set_index_def set_update_memI)

lemma step_loop_rejected_write:
  assumes "k < length steps"
    and "\<forall>j<k. kv_rejects env (w_kv_calls w + j) = None"
    and "kv_rejects env (w_kv_calls w + k) = Some e"
  shows "(\<exists>status' w'. step_loop env job i steps status w = (Some e, status', w') \<and>
            st_currentStep status' = Some (i + k)) \<or>
         (\<exists>j<k. \<exists>status' w'. step_loop env job i steps status w = (None, status', w') \<and>
            step_continueOnError (steps ! j) \<noteq> Some True \<and>
            st_status status' = Failure \<and>
            st_error status' = Some (step_failed_message (steps ! j)) \<and>
            st_currentStep status' = Some (i + j) \<and>
            \<not> list_all (\<lambda>s. res_status s = StepSuccess \<or> res_status s = Skipped) (st_steps status'))"
  using assms
proof (induction steps arbitrary: i status w k)
  case Nil then show ?case by simp
next
  case (Cons step steps)
  show ?case
  proof (cases k)
    case 0
    with Cons.prems have "kv_rejects env (w_kv_calls w) = Some e" by simp
    then show ?thesis using 0 by (simp add: queue_updateJobStatus_def)
  next
    case (Suc k')
    with Cons.prems have ok: "kv_rejects env (w_kv_calls w) = None" by force
    let ?w1 = "w\<lparr>w_kv := updateJobStatus (job_id job) (status\<lparr>st_currentStep := Some i\<rparr>) (w_kv w),
              w_kv_calls := Suc (w_kv_calls w)\<rparr>"
    obtain r w2 where run: "executeStep env step job ?w1 = (r, w2)"
      by (cases "executeStep env step job ?w1")
    with executeStep_calls[of env step job ?w1]
    have calls: "w_kv_calls w2 = Suc (w_kv_calls w)" by simp
    note it = step_loop_iteration[where steps=steps, OF ok run]
    show ?thesis
    proof (cases "res_status r = StepFailure \<and> step_continueOnError step \<noteq> Some True")
      case True
      have "\<not> list_all (\<lambda>s. res_status s = StepSuccess \<or> res_status s = Skipped)
                 (set_index (st_steps status) i r)"
        using True set_index_mem[of r "st_steps status" i]
        by (auto simp: list_all_iff intro!: bexI[of _ r])
      with True it Suc show ?thesis
        by (intro disjI2 exI[of _ 0]) simp
    next
      case False
      have k': "k' < length steps" using Cons.prems Suc by simp
      have acc: "\<forall>j<k'. kv_rejects env (w_kv_calls w2 + j) = None"
        using Cons.prems(2) Suc calls by auto
      have rej: "kv_rejects env (w_kv_calls w2 + k') = Some e"
        using Cons.prems(3) Suc calls by simp
      let ?s2 = "status\<lparr>st_currentStep := Some i, st_steps := set_index (st_steps status) i r\<rparr>"
      from Cons.IH[OF k' acc rej, of "Suc i" ?s2]
      show ?thesis
      proof
        assume "\<exists>status' w'. step_loop env job (Suc i) steps ?s2 w2 = (Some e, status', w') \<and>
            st_currentStep status' = Some (Suc i + k')"
        then show ?thesis using it False Suc by auto
      next
        assume "\<exists>j<k'. \<exists>status' w'. step_loop env job (Suc i) steps ?s2 w2 = (None, status', w') \<and>
            step_continueOnError (steps ! j) \<noteq> Some True \<and>
            st_status status' = Failure \<and>
            st_error status' = Some (step_failed_message (steps ! j)) \<and>
            st_currentStep status' = Some (Suc i + j) \<and>
            \<not> list_all (\<lambda>s. res_status s = StepSuccess \<or> res_status s = Skipped) (st_steps status')"
        then obtain j status' w' where j: "j < k'"
          and l: "step_loop env job (Suc i) steps ?s2 w2 = (None, status', w')"
            "step_continueOnError (steps ! j) \<noteq> Some True"
            "st_status status' = Failure"
            "st_error status' = Some (step_failed_message (steps ! j))"
            "st_currentStep status' = Some (Suc i + j)"
            "\<not> list_all (\<lambda>s. res_status s = StepSuccess \<or> res_status s = Skipped) (st_steps status')"
          by blast
        show ?thesis
          using it False Suc j l
          by (intro disjI2 exI[of _ "Suc j"]) simp
      qed
    qed
  qed
qed

lemma step_loop_throws_origin:
  "step_loop env job i steps status w = (Some e, status', w') \<Longrightarrow>
   \<exists>k<length steps. kv_rejects env (w_kv_calls w + k) = Some e \<and>
      (\<forall>j<k. kv_rejects env (w_kv_calls w + j) = None) \<and>
      st_currentStep status' = Some (i + k)"
proof (induction steps arbitrary: i status w)
  case Nil then show ?case by simp
next
  case (Cons step steps)
  show ?case
  proof (cases "kv_rejects env (w_kv_calls w)")
    case (Some e0)
    with Cons.prems have "e0 = e" "status' = status\<lparr>st_currentStep := Some i\<rparr>"
      by (simp_all add: queue_updateJobStatus_def)
    with Some show ?thesis by (intro exI[of _ 0]) simp
  next
    case None
    let ?w1 = "w\<lparr>w_kv := updateJobStatus (job_id job) (status\<lparr>st_currentStep := Some i\<rparr>) (w_kv w),
              w_kv_calls := Suc (w_kv_calls w)\<rparr>"
    obtain r w2 where run: "executeStep env step job ?w1 = (r, w2)"
      by (cases "executeStep env step job ?w1")
    with executeStep_calls[of env step job ?w1]
    have calls: "w_kv_calls w2 = Suc (w_kv_calls w)" by simp
    note it = step_loop_iteration[where steps=steps, OF None run]
    let ?s2 = "status\<lparr>st_currentStep := Some i, st_steps := set_index (st_steps status) i r\<rparr>"
    from it Cons.prems
    have soft: "\<not> (res_status r = StepFailure \<and> step_continueOnError step \<noteq> Some True)"
      and rest: "step_loop env job (Suc i) steps ?s2 w2 = (Some e, status', w')"
      by (auto split: if_splits)
    from Cons.IH[OF rest] obtain k where k: "k < length steps"
      "kv_rejects env (w_kv_calls w2 + k) = Some e"
      "\<forall>j<k. kv_rejects env (w_kv_calls w2 + j) = None"
      "st_currentStep status' = Some (Suc i + k)" by blast
    have "\<forall>j<Suc k. kv_rejects env (w_kv_calls w + j) = None"
    proof (intro allI impI)
      fix j assume "j < Suc k"
      then show "kv_rejects env (w_kv_calls w + j) = None"
        using None k(3) calls by (cases j) auto
    qed
    with k calls show ?thesis by (intro exI[of _ "Suc k"]) simp
  qed
qed

text \<open>What the \<^verbatim>\<open>try\<close> block does with each rejection, and where its exceptions come from.\<close>

lemma Orchestrator_saveCache_none:
  "job_cacheKeys job = None \<or> job_cacheKeys job = Some [] \<Longrightarrow> Orchestrator_saveCache env job w = w"
  by (auto simp: Orchestrator_saveCache_def)

lemma try_block_loop_write_rejected:
  assumes set_up: "fst (setupWorkspace env job w0) = Inr ()"
    and k: "k < length (job_steps job)"
    and acc: "\<forall>j<k. kv_rejects env (w_kv_calls w0 + j) = None"
    and rej: "kv_rejects env (w_kv_calls w0 + k) = Some e"
    and block: "try_block env job status w0 = (thrown, status1, w1)"
  shows "thrown = Some e \<and> st_currentStep status1 = Some k \<or>
         thrown = None \<and> st_status status1 = Failure \<and>
         (\<exists>j<k. step_continueOnError (job_steps job ! j) \<noteq> Some True \<and>
                st_error status1 = Some (step_failed_message (job_steps job ! j)) \<and>
                st_currentStep status1 = Some j)"
proof -
  obtain ws where ws: "setupWorkspace env job w0 = (Inr (), ws)"
    using set_up by (cases "setupWorkspace env job w0") simp
  obtain hit wr where restore: "Orchestrator_restoreCache env job ws = (hit, wr)"
    by (cases "Orchestrator_restoreCache env job ws")
  have "w_kv_calls wr = w_kv_calls w0"
    using setupWorkspace_calls[of env job w0] Orchestrator_restoreCache_calls[of env job ws]
      ws restore by simp
  with acc rej have acc': "\<forall>j<k. kv_rejects env (w_kv_calls wr + j) = None"
    and rej': "kv_rejects env (w_kv_calls wr + k) = Some e" by simp_all
  from step_loop_rejected_write[OF k acc' rej', of job 0 status]
  show ?thesis
  proof
    assume "\<exists>status' w'. step_loop env job 0 (job_steps job) status wr = (Some e, status', w') \<and>
            st_currentStep status' = Some (0 + k)"
    then show ?thesis using ws restore block by (auto simp: try_block_def)
  next
    assume "\<exists>j<k. \<exists>status' w'. step_loop env job 0 (job_steps job) status wr = (None, status', w') \<and>
            step_continueOnError (job_steps job ! j) \<noteq> Some True \<and>
            st_status status' = Failure \<and>
            st_error status' = Some (step_failed_message (job_steps job ! j)) \<and>
            st_currentStep status' = Some (0 + j) \<and>
            \<not> list_all (\<lambda>s. res_status s = StepSuccess \<or> res_status s = Skipped) (st_steps status')"
    then obtain j status' w' where j: "j < k"
      and l: "step_loop env job 0 (job_steps job) status wr = (None, status', w')"
        "step_continueOnError (job_steps job ! j) \<noteq> Some True"
        "st_status status' = Failure"
        "st_error status' = Some (step_failed_message (job_steps job ! j))"
        "st_currentStep status' = Some j"
        "\<not> list_all (\<lambda>s. res_status s = StepSuccess \<or> res_status s = Skipped) (st_steps status')"
      by auto
    from ws restore l block have "thrown = None" "status1 = status'"
      by (simp_all add: try_block_def)
    with j l show ?thesis by auto
  qed
qed

lemma try_block_snapshot_rejected:
  assumes ws: "setupWorkspace env job w0 = (Inr (), ws)"
    and restore: "Orchestrator_restoreCache env job ws = (hit, wr)"
    and loop: "step_loop env job 0 (job_steps job) status wr = (None, st, wl)"
    and good: "list_all (\<lambda>s. res_status s = StepSuccess \<or> res_status s = Skipped) (st_steps st)
               \<or> st_status st = Success"
    and snap: "createSnapshot env (job_id job) (job_commit job) [''/workspace'']
                 (Orchestrator_saveCache env job wl) = (Inl e, wx)"
  shows "try_block env job status w0 = (Some e, st\<lparr>st_status := Success\<rparr>, wx)"
proof -
  have same: "(if job_cacheKeys job \<noteq> None \<and> job_cacheKeys job \<noteq> Some []
               then Orchestrator_saveCache env job wl else wl) = Orchestrator_saveCache env job wl"
    using Orchestrator_saveCache_none[of job env wl] by auto
  have eq: "st_status st = Success \<Longrightarrow> st = st\<lparr>st_status := Success\<rparr>" by simp
  show ?thesis
  proof (cases "list_all (\<lambda>s. res_status s = StepSuccess \<or> res_status s = Skipped) (st_steps st)")
    case True
    then show ?thesis using ws restore loop snap same by (simp add: try_block_def)
  next
    case False
    with good have "st_status st = Success" by simp
    with False eq show ?thesis using ws restore loop snap same by (simp add: try_block_def)
  qed
qed

lemma try_block_throws_origin:
  assumes "try_block env job status w0 = (Some e, status1, w1)"
  shows "(\<exists>ws. setupWorkspace env job w0 = (Inl e, ws)) \<or>
         (\<exists>k<length (job_steps job). kv_rejects env (w_kv_calls w0 + k) = Some e \<and>
             (\<forall>j<k. kv_rejects env (w_kv_calls w0 + j) = None) \<and> st_currentStep status1 = Some k) \<or>
         (\<exists>wl. fst (createSnapshot env (job_id job) (job_commit job) [''/workspace''] wl) = Inl e)"
proof (cases "setupWorkspace env job w0")
  case (Pair r ws)
  show ?thesis
  proof (cases r)
    case (Inl e')
    with Pair assms show ?thesis by (simp add: try_block_def)
  next
    case (Inr u)
    obtain hit wr where restore: "Orchestrator_restoreCache env job ws = (hit, wr)"
      by (cases "Orchestrator_restoreCache env job ws")
    have calls: "w_kv_calls wr = w_kv_calls w0"
      using setupWorkspace_calls[of env job w0] Orchestrator_restoreCache_calls[of env job ws]
        Pair restore by simp
    obtain t st wl where loop: "step_loop env job 0 (job_steps job) status wr = (t, st, wl)"
      by (cases "step_loop env job 0 (job_steps job) status wr")
    show ?thesis
    proof (cases t)
      case (Some e')
      with Pair Inr restore loop assms have "e' = e" "status1 = st"
        by (simp_all add: try_block_def)
      with step_loop_throws_origin[of env job 0 "job_steps job" status wr e st wl] loop Some calls
      show ?thesis by simp
    next
      case None
      let ?s2 = "if list_all (\<lambda>s. res_status s = StepSuccess \<or> res_status s = Skipped) (st_steps st)
                 then st\<lparr>st_status := Success\<rparr> else st"
      let ?w4 = "if st_status ?s2 = Success \<and> job_cacheKeys job \<noteq> None \<and> job_cacheKeys job \<noteq> Some []
                 then Orchestrator_saveCache env job wl else wl"
      obtain rs w5 where
        snap: "createSnapshot env (job_id job) (job_commit job) [''/workspace''] ?w4 = (rs, w5)"
        by (cases "createSnapshot env (job_id job) (job_commit job) [''/workspace''] ?w4")
      have "try_block env job status w0 =
              (if st_status ?s2 = Success
               then (case createSnapshot env (job_id job) (job_commit job) [''/workspace''] ?w4 of
                       (Inl e, w5) \<Rightarrow> (Some e, ?s2, w5) | (Inr _, w5) \<Rightarrow> (None, ?s2, w5))
               else (None, ?s2, ?w4))"
        unfolding try_block_def Let_def using Pair Inr restore loop None by simp
      with assms snap have "rs = Inl e"
        by (cases rs; cases "st_status ?s2 = Success") simp_all
      with snap have "fst (createSnapshot env (job_id job) (job_commit job) [''/workspace''] ?w4) = Inl e"
        by simp
      then show ?thesis by blast
    qed
  qed
qed

text \<open>
  C7, as stated, fails: the write of the status in the \<^verbatim>\<open>finally\<close> block is outside the
  \<^verbatim>\<open>catch\<close>. When the store rejects it (here the third queue call of the run, after the
  read at entry and the write that opens the only step), the rejection reaches the caller,
  and the record left in the store is the running one.
\<close>

theorem executeJob_final_persist_counterexample:
  "map_option st_status (getJobStatus ''single'' (dispatched job_single)) = Some Running \<and>
   fst (executeJob (example_env exit_codes (reject_at 2 ''KV put failed'') id) job_single
          (example_world (dispatched job_single) []))
     = Inl ''KV put failed'' \<and>
   map_option st_status
     (getJobStatus ''single''
        (w_kv (snd (executeJob (example_env exit_codes (reject_at 2 ''KV put failed'') id)
                      job_single (example_world (dispatched job_single) [])))))
     = Some Running"
  by (simp add: orch_example_defs example_defs queue_defs orch_defs)

text \<open>
  C7, amended. Let the status record exist and be read at entry, and let the store take the
  write of the \<^verbatim>\<open>finally\<close> block. Then \<^verbatim>\<open>executeJob\<close> returns a status, that status is
  the stored one and its \<^verbatim>\<open>finishedAt\<close> is stamped; and each rejection inside the
  \<^verbatim>\<open>try\<close> block ends as a failure:
  \<^item> if the workspace setup rejects, the status is failure with the rejection's message,
    and the step results are as they were found;
  \<^item> if the setup resolves and the first write of the status that the store rejects is
    that of the loop's iteration \<open>k\<close>, the status is failure: the error is the rejection's
    message and the current step is \<open>k\<close>, unless a step before \<open>k\<close> that is not
    \<^verbatim>\<open>continueOnError\<close> has stopped the loop, and then the error names that step;
  \<^item> if the loop ends without an exception, the status is (or becomes) success and the
    snapshot rejects, the status is failure with the rejection's message.

  Whatever exception leaves the \<^verbatim>\<open>try\<close> block is one of these three (the cache restore,
  the cache save and the steps keep theirs), and the status is then failure with its
  message. If the store rejects the write of the \<^verbatim>\<open>finally\<close> block, the rejection is what
  \<^verbatim>\<open>executeJob\<close> throws to its caller, and the store is as the \<^verbatim>\<open>try\<close> block left it.
\<close>

theorem executeJob_catches:
  assumes entry: "queue_getJobStatus env (job_id job) w = (Inr (Some status), w0)"
    and block: "try_block env job status w0 = (thrown, status1, w1)"
  shows "(kv_rejects env (w_kv_calls w1) = None \<longrightarrow>
           (\<exists>final w'. executeJob env job w = (Inr final, w') \<and>
              getJobStatus (job_id job) (w_kv w') = Some final \<and>
              st_finishedAt final = Some (clock env (w_tick w1)) \<and>
              (\<forall>e. thrown = Some e \<longrightarrow> st_status final = Failure \<and> st_error final = Some e) \<and>
              (thrown = None \<longrightarrow> st_status final = st_status status1) \<and>
              (\<forall>e ws. setupWorkspace env job w0 = (Inl e, ws) \<longrightarrow>
                 st_status final = Failure \<and> st_error final = Some e \<and>
                 st_steps final = st_steps status) \<and>
              (\<forall>e k. fst (setupWorkspace env job w0) = Inr () \<and> k < length (job_steps job) \<and>
                     (\<forall>j<k. kv_rejects env (w_kv_calls w0 + j) = None) \<and>
                     kv_rejects env (w_kv_calls w0 + k) = Some e \<longrightarrow>
                 st_status final = Failure \<and>
                 (st_error final = Some e \<and> st_currentStep final = Some k \<or>
                  (\<exists>j<k. step_continueOnError (job_steps job ! j) \<noteq> Some True \<and>
                         st_error final = Some (step_failed_message (job_steps job ! j)) \<and>
                         st_currentStep final = Some j))) \<and>
              (\<forall>e ws hit wr st wl wx.
                     setupWorkspace env job w0 = (Inr (), ws) \<and>
                     Orchestrator_restoreCache env job ws = (hit, wr) \<and>
                     step_loop env job 0 (job_steps job) status wr = (None, st, wl) \<and>
                     (list_all (\<lambda>s. res_status s = StepSuccess \<or> res_status s = Skipped) (st_steps st)
                      \<or> st_status st = Success) \<and>
                     createSnapshot env (job_id job) (job_commit job) [''/workspace'']
                       (Orchestrator_saveCache env job wl) = (Inl e, wx) \<longrightarrow>
                 st_status final = Failure \<and> st_error final = Some e \<and>
                 st_steps final = st_steps st))) \<and>
         (\<forall>e. kv_rejects env (w_kv_calls w1) = Some e \<longrightarrow>
           (\<exists>w'. executeJob env job w = (Inl e, w') \<and> w_kv w' = w_kv w1)) \<and>
         (\<forall>e. thrown = Some e \<longrightarrow>
            (\<exists>ws. setupWorkspace env job w0 = (Inl e, ws)) \<or>
            (\<exists>k<length (job_steps job). kv_rejects env (w_kv_calls w0 + k) = Some e \<and>
                (\<forall>j<k. kv_rejects env (w_kv_calls w0 + j) = None) \<and>
                st_currentStep status1 = Some k) \<or>
            (\<exists>wl. fst (createSnapshot env (job_id job) (job_commit job) [''/workspace''] wl)
                     = Inl e))"
proof (intro conjI impI allI)
  assume ok: "kv_rejects env (w_kv_calls w1) = None"
  from finish_ok[OF entry block ok] obtain final w' where
    fin: "executeJob env job w = (Inr final, w')"
      "getJobStatus (job_id job) (w_kv w') = Some final"
      "st_status final = (if thrown = None then st_status status1 else Failure)"
      "st_error final = (case thrown of None \<Rightarrow> st_error status1 | Some e \<Rightarrow> Some e)"
      "st_steps final = st_steps status1"
      "st_currentStep final = st_currentStep status1"
      "st_finishedAt final = Some (clock env (w_tick w1))"
    by blast
  have thrown: "st_status final = Failure \<and> st_error final = Some e" if "thrown = Some e" for e
    using that fin by simp
  have quiet: "st_status final = st_status status1" if "thrown = None"
    using that fin by simp
  have set_up: "st_status final = Failure \<and> st_error final = Some e \<and>
                st_steps final = st_steps status"
    if "setupWorkspace env job w0 = (Inl e, ws)" for e ws
    using try_block_setup_throws[OF that, of status] block fin by simp
  have loop_write: "st_status final = Failure \<and>
                 (st_error final = Some e \<and> st_currentStep final = Some k \<or>
                  (\<exists>j<k. step_continueOnError (job_steps job ! j) \<noteq> Some True \<and>
                         st_error final = Some (step_failed_message (job_steps job ! j)) \<and>
                         st_currentStep final = Some j))"
    if "fst (setupWorkspace env job w0) = Inr () \<and> k < length (job_steps job) \<and>
                     (\<forall>j<k. kv_rejects env (w_kv_calls w0 + j) = None) \<and>
                     kv_rejects env (w_kv_calls w0 + k) = Some e" for e k
    using try_block_loop_write_rejected[of env job w0 k e status thrown status1 w1] that block fin
    by auto
  have snap: "st_status final = Failure \<and> st_error final = Some e \<and>
                 st_steps final = st_steps st"
    if "setupWorkspace env job w0 = (Inr (), ws) \<and>
                     Orchestrator_restoreCache env job ws = (hit, wr) \<and>
                     step_loop env job 0 (job_steps job) status wr = (None, st, wl) \<and>
                     (list_all (\<lambda>s. res_status s = StepSuccess \<or> res_status s = Skipped) (st_steps st)
                      \<or> st_status st = Success) \<and>
                     createSnapshot env (job_id job) (job_commit job) [''/workspace'']
                       (Orchestrator_saveCache env job wl) = (Inl e, wx)" for e ws hit wr st wl wx
    using try_block_snapshot_rejected[of env job w0 ws hit wr status st wl e wx] that block fin
    by auto
  show "\<exists>final w'. executeJob env job w = (Inr final, w') \<and>
              getJobStatus (job_id job) (w_kv w') = Some final \<and>
              st_finishedAt final = Some (clock env (w_tick w1)) \<and>
              (\<forall>e. thrown = Some e \<longrightarrow> st_status final = Failure \<and> st_error final = Some e) \<and>
              (thrown = None \<longrightarrow> st_status final = st_status status1) \<and>
              (\<forall>e ws. setupWorkspace env job w0 = (Inl e, ws) \<longrightarrow>
                 st_status final = Failure \<and> st_error final = Some e \<and>
                 st_steps final = st_steps status) \<and>
              (\<forall>e k. fst (setupWorkspace env job w0) = Inr () \<and> k < length (job_steps job) \<and>
                     (\<forall>j<k. kv_rejects env (w_kv_calls w0 + j) = None) \<and>
                     kv_rejects env (w_kv_calls w0 + k) = Some e \<longrightarrow>
                 st_status final = Failure \<and>
                 (st_error final = Some e \<and> st_currentStep final = Some k \<or>
                  (\<exists>j<k. step_continueOnError (job_steps job ! j) \<noteq> Some True \<and>
                         st_error final = Some (step_failed_message (job_steps job ! j)) \<and>
                         st_currentStep final = Some j))) \<and>
              (\<forall>e ws hit wr st wl wx.
                     setupWorkspace env job w0 = (Inr (), ws) \<and>
                     Orchestrator_restoreCache env job ws = (hit, wr) \<and>
                     step_loop env job 0 (job_steps job) status wr = (None, st, wl) \<and>
                     (list_all (\<lambda>s. res_status s = StepSuccess \<or> res_status s = Skipped) (st_steps st)
                      \<or> st_status st = Success) \<and>
                     createSnapshot env (job_id job) (job_commit job) [''/workspace'']
                       (Orchestrator_saveCache env job wl) = (Inl e, wx) \<longrightarrow>
                 st_status final = Failure \<and> st_error final = Some e \<and>
                 st_steps final = st_steps st)"
    apply (intro exI[of _ final] exI[of _ w'] conjI allI impI)
    using fin(1) apply simp
    using fin(2) apply simp
    using fin(7) apply simp
    using thrown apply blast
    using thrown apply blast
    using quiet apply blast
    using set_up apply blast
    using set_up apply blast
    using set_up apply blast
    using loop_write apply blast
    using loop_write apply blast
    using snap apply blast
    using snap apply blast
    using snap apply blast
    done
next
  fix e assume "kv_rejects env (w_kv_calls w1) = Some e"
  then show "\<exists>w'. executeJob env job w = (Inl e, w') \<and> w_kv w' = w_kv w1"
    using entry block
    by (simp add: executeJob_def Let_def Date_now_def queue_updateJobStatus_def)
next
  fix e assume "thrown = Some e"
  with block show "(\<exists>ws. setupWorkspace env job w0 = (Inl e, ws)) \<or>
            (\<exists>k<length (job_steps job). kv_rejects env (w_kv_calls w0 + k) = Some e \<and>
                (\<forall>j<k. kv_rejects env (w_kv_calls w0 + j) = None) \<and>
                st_currentStep status1 = Some k) \<or>
            (\<exists>wl. fst (createSnapshot env (job_id job) (job_commit job) [''/workspace''] wl)
                     = Inl e)"
    using try_block_throws_origin[of env job status w0 e status1 w1] by simp
qed

text \<open>
  Three runs of a dispatched job. The clone rejects: failure, with the clone's message, no
  step run. The store rejects the write that opens the only step: failure, with the
  store's message, at step 0. The only step succeeds and the snapshot archive cannot be
  read: failure, with the message of the read.
\<close>

theorem executeJob_catches_witness:
  "(\<exists>final w'.
      executeJob clone_fails job_single (example_world (dispatched job_single) [])
        = (Inr final, w') \<and>
      st_status final = Failure \<and> st_error final = Some ''clone failed'' \<and>
      map res_status (st_steps final) = [Pending] \<and>
      getJobStatus ''single'' (w_kv w') = Some final) \<and>
   (\<exists>final w'.
      executeJob (example_env exit_codes (reject_at 1 ''KV put failed'') id) job_single
          (example_world (dispatched job_single) [])
        = (Inr final, w') \<and>
      st_status final = Failure \<and> st_error final = Some ''KV put failed'' \<and>
      st_currentStep final = Some 0 \<and> st_finishedAt final = Some 1000 \<and>
      getJobStatus ''single'' (w_kv w') = Some final) \<and>
   (\<exists>final w'.
      executeJob (example_env exit_codes never id) job_pass (example_world (dispatched job_pass) [])
        = (Inr final, w') \<and>
      st_status final = Failure \<and> st_error final = Some ''ENOENT: /tmp/snapshot.tar.gz'' \<and>
      map res_status (st_steps final) = [StepSuccess] \<and>
      getJobStatus ''pass'' (w_kv w') = Some final)"
proof -
  let ?start = "example_world (dispatched job_single) []"
  let ?status = "\<lparr>st_id = ''single'', st_status = Running, st_currentStep = None,
             st_startedAt = Some 1, st_finishedAt = None, st_duration = None,
             st_steps = map pending_result (job_steps job_single), st_sandboxId = None,
             st_error = None\<rparr>"
  let ?entered = "?start\<lparr>w_kv_calls := 1\<rparr>"
  have id: "job_id job_single = ''single''" by (simp add: job_single_def example_job_def)
  have slots: "map res_status (st_steps ?status) = [Pending]"
    by (simp add: job_single_def example_job_def pending_result_def)

  have first: "\<exists>final w'.
      executeJob clone_fails job_single ?start = (Inr final, w') \<and>
      st_status final = Failure \<and> st_error final = Some ''clone failed'' \<and>
      map res_status (st_steps final) = [Pending] \<and>
      getJobStatus ''single'' (w_kv w') = Some final"
  proof -
    have entry: "queue_getJobStatus clone_fails (job_id job_single) ?start
                   = (Inr (Some ?status), ?entered)"
      by (simp add: clone_fails_def orch_example_defs example_defs queue_defs
            queue_getJobStatus_def)
    obtain thrown status1 w1 where
      block: "try_block clone_fails job_single ?status ?entered = (thrown, status1, w1)"
      by (cases "try_block clone_fails job_single ?status ?entered")
    have ok: "kv_rejects clone_fails (w_kv_calls w1) = None"
      by (simp add: clone_fails_def example_env_def never_def)
    have clone: "setupWorkspace clone_fails job_single ?entered = (Inl ''clone failed'', ?entered)"
      by (simp add: clone_fails_def orch_example_defs example_defs setupWorkspace_def await_def
            exec_def)
    from executeJob_catches[OF entry block] ok clone
    show ?thesis unfolding id using slots by fastforce
  qed

  have second: "\<exists>final w'.
      executeJob (example_env exit_codes (reject_at 1 ''KV put failed'') id) job_single ?start
        = (Inr final, w') \<and>
      st_status final = Failure \<and> st_error final = Some ''KV put failed'' \<and>
      st_currentStep final = Some 0 \<and> st_finishedAt final = Some 1000 \<and>
      getJobStatus ''single'' (w_kv w') = Some final"
  proof -
    let ?env = "example_env exit_codes (reject_at 1 ''KV put failed'') id"
    have entry: "queue_getJobStatus ?env (job_id job_single) ?start = (Inr (Some ?status), ?entered)"
      by (simp add: orch_example_defs example_defs queue_defs queue_getJobStatus_def)
    obtain thrown status1 w1 where
      block: "try_block ?env job_single ?status ?entered = (thrown, status1, w1)"
      by (cases "try_block ?env job_single ?status ?entered")
    have "try_block ?env job_single ?status ?entered
            = (Some ''KV put failed'', ?status\<lparr>st_currentStep := Some 0\<rparr>,
               ?entered\<lparr>w_kv_calls := 2\<rparr>)"
      by (simp add: orch_example_defs example_defs orch_defs)
    with block have w1: "w1 = ?entered\<lparr>w_kv_calls := 2\<rparr>" by simp
    have ok: "kv_rejects ?env (w_kv_calls w1) = None" and tick: "clock ?env (w_tick w1) = 1000"
      by (simp_all add: w1 example_env_def reject_at_def example_world_def)
    have set_up: "fst (setupWorkspace ?env job_single ?entered) = Inr ()"
      by (simp add: job_single_def example_setup_ok)
    have one: "0 < length (job_steps job_single)"
      by (simp add: job_single_def example_job_def)
    have rej: "kv_rejects ?env (w_kv_calls ?entered + 0) = Some ''KV put failed''"
      by (simp add: example_env_def reject_at_def)
    from executeJob_catches[OF entry block] ok obtain final w' where
      fin: "executeJob ?env job_single ?start = (Inr final, w')"
        "getJobStatus (job_id job_single) (w_kv w') = Some final"
        "st_finishedAt final = Some (clock ?env (w_tick w1))"
      and origin: "\<forall>e k. fst (setupWorkspace ?env job_single ?entered) = Inr () \<and>
                     k < length (job_steps job_single) \<and>
                     (\<forall>j<k. kv_rejects ?env (w_kv_calls ?entered + j) = None) \<and>
                     kv_rejects ?env (w_kv_calls ?entered + k) = Some e \<longrightarrow>
                 st_status final = Failure \<and>
                 (st_error final = Some e \<and> st_currentStep final = Some k \<or>
                  (\<exists>j<k. step_continueOnError (job_steps job_single ! j) \<noteq> Some True \<and>
                         st_error final = Some (step_failed_message (job_steps job_single ! j)) \<and>
                         st_currentStep final = Some j))"
      by blast
    from origin[rule_format, of 0 "''KV put failed''"] set_up one rej
    have "st_status final = Failure \<and> st_error final = Some ''KV put failed'' \<and>
          st_currentStep final = Some 0" by simp
    with fin tick show ?thesis unfolding id by auto
  qed

  have third: "\<exists>final w'.
      executeJob (example_env exit_codes never id) job_pass (example_world (dispatched job_pass) [])
        = (Inr final, w') \<and>
      st_status final = Failure \<and> st_error final = Some ''ENOENT: /tmp/snapshot.tar.gz'' \<and>
      map res_status (st_steps final) = [StepSuccess] \<and>
      getJobStatus ''pass'' (w_kv w') = Some final"
  proof -
    let ?env = "example_env exit_codes never id"
    let ?begin = "example_world (dispatched job_pass) []"
    let ?found = "\<lparr>st_id = ''pass'', st_status = Running, st_currentStep = None,
             st_startedAt = Some 1, st_finishedAt = None, st_duration = None,
             st_steps = map pending_result (job_steps job_pass), st_sandboxId = None,
             st_error = None\<rparr>"
    let ?inside = "?begin\<lparr>w_kv_calls := 1\<rparr>"
    have idp: "job_id job_pass = ''pass''" by (simp add: job_pass_def example_job_def)
    have entry: "queue_getJobStatus ?env (job_id job_pass) ?begin = (Inr (Some ?found), ?inside)"
      by (simp add: job_pass_def orch_example_defs example_defs queue_defs queue_getJobStatus_def)
    obtain thrown status1 w1 where
      block: "try_block ?env job_pass ?found ?inside = (thrown, status1, w1)"
      by (cases "try_block ?env job_pass ?found ?inside")
    have ok: "kv_rejects ?env (w_kv_calls w1) = None"
      by (simp add: example_env_def never_def)
    have set_up: "setupWorkspace ?env job_pass ?inside = (Inr (), ?inside)"
      by (simp add: job_pass_def orch_example_defs example_defs setupWorkspace_def await_def
            resolve_def exec_def)
    have restore: "Orchestrator_restoreCache ?env job_pass ?inside = (False, ?inside)"
      by (simp add: job_pass_def example_job_def Orchestrator_restoreCache_def)
    obtain t st wl where
      loop: "step_loop ?env job_pass 0 (job_steps job_pass) ?found ?inside = (t, st, wl)"
      by (cases "step_loop ?env job_pass 0 (job_steps job_pass) ?found ?inside")
    have "fst (step_loop ?env job_pass 0 (job_steps job_pass) ?found ?inside) = None"
      "map res_status (st_steps (fst (snd (step_loop ?env job_pass 0 (job_steps job_pass)
                                               ?found ?inside)))) = [StepSuccess]"
      "w_sandbox (snd (snd (step_loop ?env job_pass 0 (job_steps job_pass) ?found ?inside))) = []"
      by (simp_all add: job_pass_def orch_example_defs example_defs orch_defs pending_result_def)
    with loop have t: "t = None" and results: "map res_status (st_steps st) = [StepSuccess]"
      and fs: "w_sandbox wl = []" by simp_all
    from results have good: "list_all (\<lambda>s. res_status s = StepSuccess \<or> res_status s = Skipped)
                               (st_steps st)"
      by (cases "st_steps st") auto
    obtain rs wx where
      snap: "createSnapshot ?env (job_id job_pass) (job_commit job_pass) [''/workspace'']
               (Orchestrator_saveCache ?env job_pass wl) = (rs, wx)"
      by (cases "createSnapshot ?env (job_id job_pass) (job_commit job_pass) [''/workspace'']
               (Orchestrator_saveCache ?env job_pass wl)")
    have "fst (createSnapshot ?env (job_id job_pass) (job_commit job_pass) [''/workspace'']
               (Orchestrator_saveCache ?env job_pass wl)) = Inl ''ENOENT: /tmp/snapshot.tar.gz''"
      using fs
      by (simp add: job_pass_def example_job_def Orchestrator_saveCache_def createSnapshot_def
            Date_now_def await_def exec_def readFile_def example_env_def Let_def)
    with snap have rs: "rs = Inl ''ENOENT: /tmp/snapshot.tar.gz''" by simp
    from executeJob_catches[OF entry block] ok obtain final w' where
      fin: "executeJob ?env job_pass ?begin = (Inr final, w')"
        "getJobStatus (job_id job_pass) (w_kv w') = Some final"
      and origin: "\<forall>e ws hit wr st wl wx.
                     setupWorkspace ?env job_pass ?inside = (Inr (), ws) \<and>
                     Orchestrator_restoreCache ?env job_pass ws = (hit, wr) \<and>
                     step_loop ?env job_pass 0 (job_steps job_pass) ?found wr = (None, st, wl) \<and>
                     (list_all (\<lambda>s. res_status s = StepSuccess \<or> res_status s = Skipped) (st_steps st)
                      \<or> st_status st = Success) \<and>
                     createSnapshot ?env (job_id job_pass) (job_commit job_pass) [''/workspace'']
                       (Orchestrator_saveCache ?env job_pass wl) = (Inl e, wx) \<longrightarrow>
                 st_status final = Failure \<and> st_error final = Some e \<and>
                 st_steps final = st_steps st"
      by blast
    from origin[rule_format, of ?inside False ?inside st wl "''ENOENT: /tmp/snapshot.tar.gz''" wx]
      set_up restore loop t good snap rs
    have "st_status final = Failure \<and> st_error final = Some ''ENOENT: /tmp/snapshot.tar.gz'' \<and>
          st_steps final = st_steps st" by simp
    with fin results show ?thesis unfolding idp by auto
  qed
  from first second third show ?thesis by blast
qed

end
